theory Spec2Isabelle
  imports Complex_Main
begin

section \<open>The cube menu of CubeMenu.vue\<close>

text \<open>
  The component keeps its data in module-level variables and changes them from DOM event
  handlers and from callbacks of the animation library. The embedding threads one record
  of those variables through every function. JavaScript numbers are read as real numbers;
  objects that the code mutates through references (vectors, Euler angles, materials)
  live in an explicit store, so that \<open>clone()\<close> and \<open>new\<close> give fresh addresses and a
  write through one reference is seen through every alias of it.
\<close>

subsection \<open>Data\<close>

datatype CubeState = Idle | Net | Transitioning | Menu

type_synonym addr = nat

text \<open>
  A THREE.Vector3 or THREE.Euler is its three components, a MeshBasicMaterial its colour
  and its opacity.
\<close>

datatype obj = Vec real real real | Material nat real

datatype propname = PropX | PropY | PropZ | PropOpacity

fun get_prop :: "propname \<Rightarrow> obj \<Rightarrow> real" where
  "get_prop PropX (Vec x y z) = x"
| "get_prop PropY (Vec x y z) = y"
| "get_prop PropZ (Vec x y z) = z"
| "get_prop PropOpacity (Material c a) = a"
| "get_prop p ob = 0"

fun set_prop :: "propname \<Rightarrow> real \<Rightarrow> obj \<Rightarrow> obj" where
  "set_prop PropX v (Vec x y z) = Vec v y z"
| "set_prop PropY v (Vec x y z) = Vec x v z"
| "set_prop PropZ v (Vec x y z) = Vec x y v"
| "set_prop PropOpacity v (Material c a) = Material c v"
| "set_prop p v ob = ob"

type_synonym store = "obj list"

definition alloc :: "obj \<Rightarrow> store \<Rightarrow> addr \<times> store" where
  "alloc ob h = (length h, h @ [ob])"

text \<open>\<open>v.clone()\<close>: a new object with the values \<open>v\<close> has now.\<close>

definition clone :: "addr \<Rightarrow> store \<Rightarrow> addr \<times> store" where
  "clone a h = alloc (h ! a) h"

text \<open>
  A THREE.Mesh: references to its own position, rotation and material objects, and the
  \<open>userData.isEdge\<close> flag (absent, hence falsy, on a face mesh). The record is never
  changed after creation and no two meshes share a position object, so comparing two
  mesh records is the reference comparison \<open>===\<close> of the source.
\<close>

record mesh =
  position :: addr
  rotation :: addr
  material :: addr
  isEdge :: bool

record FaceData =
  name :: string
  label :: "string option"
  mesh :: mesh
  cubePosition :: addr
  cubeRotation :: addr
  netPosition :: addr
  netRotation :: addr
  menuPosition :: addr
  menuRotation :: addr

text \<open>The part of the THREE.Group \<open>cubeGroup\<close> that the code writes.\<close>

record group =
  g_rotation :: addr
  g_position :: addr
  g_scale :: addr

subsection \<open>The animation library, as the component uses it\<close>

text \<open>
  The closures handed to gsap, one constructor each:
  \<open>SetNet\<close> is \<open>() => { currentState = 'net'; }\<close> of unfoldCubeNet,
  \<open>EdgeOpaque\<close> is \<open>() => { setEdgeOpacity(1, 0); }\<close>,
  \<open>EdgeFade\<close> is \<open>() => { setEdgeOpacity(0, 0.5); }\<close>, and
  \<open>MenuNavigate face\<close> is the last callback of transitionToMenuAndNavigate, which
  captures \<open>selectedFace\<close>.
\<close>

datatype action = SetNet | EdgeOpaque | EdgeFade | MenuNavigate FaceData

text \<open>
  A tween drives the listed properties of its target from the values they have when the
  tween is first rendered to the given end values, over \<open>tw_duration\<close> seconds from
  \<open>tw_start\<close>. The target \<open>None\<close> is the literal \<open>{}\<close> of the source.
\<close>

record tween =
  tw_target :: "addr option"
  tw_vars :: "(propname \<times> real) list"
  tw_start :: real
  tw_duration :: real
  tw_from :: "(propname \<times> real) list option"

text \<open>The children of a gsap timeline, at positions relative to its start.\<close>

datatype tl_child =
  TlCall real action
| TlTo real "addr option" "(propname \<times> real) list" real "action option"

type_synonym timeline = "tl_child list"

fun child_end :: "tl_child \<Rightarrow> real" where
  "child_end (TlCall pos a) = pos"
| "child_end (TlTo pos tgt vars d onStart) = pos + d"

definition tl_duration :: "timeline \<Rightarrow> real" where
  "tl_duration tml = foldr max (map child_end tml) 0"

text \<open>\<open>tl.call(f, null, pos)\<close>, \<open>tl.to(target, vars, pos)\<close>, and \<open>tl.call(f)\<close>, which
  puts the callback at the end of the timeline as built so far.\<close>

definition tl_call :: "action \<Rightarrow> real \<Rightarrow> timeline \<Rightarrow> timeline" where
  "tl_call a pos tml = tml @ [TlCall pos a]"

definition tl_to :: "addr option \<Rightarrow> (propname \<times> real) list \<Rightarrow> real \<Rightarrow> action option \<Rightarrow> real
    \<Rightarrow> timeline \<Rightarrow> timeline" where
  "tl_to tgt vars d onStart pos tml = tml @ [TlTo pos tgt vars d onStart]"

definition tl_call_end :: "action \<Rightarrow> timeline \<Rightarrow> timeline" where
  "tl_call_end a tml = tml @ [TlCall (tl_duration tml) a]"

subsection \<open>The module state\<close>

record state =
  currentState :: CubeState
  faces :: "FaceData list"
  cubeGroup :: group
  edgeGroup :: "mesh list"
  mouse :: "real \<times> real"
  heap :: store
  now :: real
  callbacks :: "(real \<times> action) list"
  tweens :: "tween list"
  pushes :: "string list"

text \<open>
  \<open>now\<close> is the time of gsap's clock in seconds, \<open>callbacks\<close> the calls gsap still has
  to make with the time each is due, \<open>tweens\<close> the tweens that have not finished, and
  \<open>pushes\<close> the paths given to \<open>router.push\<close> so far, oldest first.
\<close>

definition gsap_to :: "addr option \<Rightarrow> (propname \<times> real) list \<Rightarrow> real \<Rightarrow> state \<Rightarrow> state" where
  "gsap_to tgt vars d s =
     s\<lparr>tweens := tweens s @
         [\<lparr>tw_target = tgt, tw_vars = vars, tw_start = now s, tw_duration = d,
           tw_from = None\<rparr>]\<rparr>"

definition gsap_delayedCall :: "real \<Rightarrow> action \<Rightarrow> state \<Rightarrow> state" where
  "gsap_delayedCall d a s = s\<lparr>callbacks := callbacks s @ [(now s + d, a)]\<rparr>"

text \<open>
  A timeline created by \<open>gsap.timeline()\<close> starts at the current time. Its children are
  entered with their absolute times; the \<open>onStart\<close> of a tween is a call due when the
  tween starts.
\<close>

fun add_child :: "state \<Rightarrow> tl_child \<Rightarrow> state" where
  "add_child s (TlCall pos a) = s\<lparr>callbacks := callbacks s @ [(now s + pos, a)]\<rparr>"
| "add_child s (TlTo pos tgt vars d onStart) =
     (let s1 = s\<lparr>tweens := tweens s @
                  [\<lparr>tw_target = tgt, tw_vars = vars, tw_start = now s + pos,
                    tw_duration = d, tw_from = None\<rparr>]\<rparr>
      in case onStart of
           None \<Rightarrow> s1
         | Some a \<Rightarrow> s1\<lparr>callbacks := callbacks s1 @ [(now s + pos, a)]\<rparr>)"

definition play :: "timeline \<Rightarrow> state \<Rightarrow> state" where
  "play tml s = foldl add_child s tml"

text \<open>The ease \<open>power2.inOut\<close> of every tween of the component.\<close>

definition power2_inOut :: "real \<Rightarrow> real" where
  "power2_inOut p = (if p < 0.5 then (p * 2) ^ 3 / 2 else 1 - ((1 - p) * 2) ^ 3 / 2)"

definition progress :: "real \<Rightarrow> tween \<Rightarrow> real" where
  "progress t tw =
     (if tw_duration tw \<le> 0 then 1 else min 1 ((t - tw_start tw) / tw_duration tw))"

definition start_values :: "tween \<Rightarrow> store \<Rightarrow> (propname \<times> real) list" where
  "start_values tw h =
     (case tw_from tw of
        Some fr \<Rightarrow> fr
      | None \<Rightarrow>
          (case tw_target tw of
             None \<Rightarrow> []
           | Some a \<Rightarrow> map (\<lambda>(p, v). (p, get_prop p (h ! a))) (tw_vars tw)))"

definition write_tween :: "real \<Rightarrow> tween \<Rightarrow> store \<Rightarrow> store" where
  "write_tween t tw h =
     (case tw_target tw of
        None \<Rightarrow> h
      | Some a \<Rightarrow>
          h[a := foldl (\<lambda>ob ((p, v), (q, fr)).
                          set_prop p (fr + (v - fr) * power2_inOut (progress t tw)) ob)
                   (h ! a) (zip (tw_vars tw) (start_values tw h))])"

fun render_all :: "real \<Rightarrow> tween list \<Rightarrow> store \<Rightarrow> tween list \<times> store" where
  "render_all t [] h = ([], h)"
| "render_all t (tw # tws) h =
     (if tw_start tw \<le> t then
        (let h1 = write_tween t tw h;
             (rest, h2) = render_all t tws h1
         in if 1 \<le> progress t tw then (rest, h2)
            else (tw\<lparr>tw_from := Some (start_values tw h)\<rparr> # rest, h2))
      else
        (let (rest, h2) = render_all t tws h in (tw # rest, h2)))"

definition render_tweens :: "state \<Rightarrow> state" where
  "render_tweens s =
     (let (tws, h) = render_all (now s) (sort_key tw_start (tweens s)) (heap s)
      in s\<lparr>tweens := tws, heap := h\<rparr>)"

subsection \<open>The router\<close>

record route =
  path :: string
  route_name :: string
  component :: string

definition routes :: "route list" where
  "routes =
     [\<lparr>path = ''/'', route_name = ''Home'', component = ''../views/Web.vue''\<rparr>,
      \<lparr>path = ''/web'', route_name = ''Web'', component = ''../views/Web.vue''\<rparr>,
      \<lparr>path = ''/3d'', route_name = ''ThreeD'', component = ''../views/ThreeD.vue''\<rparr>,
      \<lparr>path = ''/fullstack'', route_name = ''Fullstack'',
        component = ''../views/Fullstack.vue''\<rparr>,
      \<lparr>path = ''/about'', route_name = ''About'', component = ''../views/About.vue''\<rparr>,
      \<lparr>path = ''/projects'', route_name = ''Projects'',
        component = ''../views/Projects.vue''\<rparr>,
      \<lparr>path = ''/contact'', route_name = ''Contact'',
        component = ''../views/Contact.vue''\<rparr>]"

definition router_push :: "string \<Rightarrow> state \<Rightarrow> state" where
  "router_push p s = s\<lparr>pushes := pushes s @ [p]\<rparr>"

subsection \<open>Faces and edges\<close>

definition cubeSize :: real where
  "cubeSize = 1"

definition faceMappings :: "(string \<times> string) list" where
  "faceMappings =
     [(''front'', ''Web''), (''right'', ''3D''), (''left'', ''Fullstack''),
      (''top'', ''About''), (''bottom'', ''Projects''), (''back'', ''Contact'')]"

text \<open>
  createFace: a new material of the given colour (opacity 1, the default) and a new mesh,
  whose position and rotation start at zero. The geometry is not modelled.
\<close>

definition createFace :: "nat \<Rightarrow> store \<Rightarrow> mesh \<times> store" where
  "createFace color h =
     (let (m, h1) = alloc (Material color 1) h;
          (p, h2) = alloc (Vec 0 0 0) h1;
          (r, h3) = alloc (Vec 0 0 0) h2
      in (\<lparr>position = p, rotation = r, material = m, isEdge = False\<rparr>, h3))"

datatype orientation = OX | OY | OZ

definition edgeColor :: nat where
  "edgeColor = 0x888888"

text \<open>
  createEdge: the orientation chooses the box geometry only; the mesh position receives
  a copy of the centre, and \<open>userData.isEdge\<close> is set.
\<close>

definition createEdge :: "orientation \<Rightarrow> real \<times> real \<times> real \<Rightarrow> store \<Rightarrow> mesh \<times> store" where
  "createEdge orientation center h =
     (let (m, h1) = alloc (Material edgeColor 1) h;
          (p, h2) = alloc (Vec 0 0 0) h1;
          (r, h3) = alloc (Vec 0 0 0) h2;
          h4 = (case center of (cx, cy, cz) \<Rightarrow> h3[p := Vec cx cy cz])
      in (\<lparr>position = p, rotation = r, material = m, isEdge = True\<rparr>, h4))"

definition edgesData :: "(orientation \<times> real \<times> real \<times> real) list" where
  "edgesData =
     [(OX, 0, -0.5, -0.5), (OX, 0, 0.5, -0.5), (OX, 0, -0.5, 0.5), (OX, 0, 0.5, 0.5),
      (OY, 0.5, 0, -0.5), (OY, -0.5, 0, -0.5), (OY, 0.5, 0, 0.5), (OY, -0.5, 0, 0.5),
      (OZ, -0.5, -0.5, 0), (OZ, 0.5, -0.5, 0), (OZ, 0.5, 0.5, 0), (OZ, -0.5, 0.5, 0)]"

text \<open>setEdgeOpacity: one \<open>gsap.to\<close> on the material of every child of edgeGroup.\<close>

definition setEdgeOpacity :: "real \<Rightarrow> real \<Rightarrow> state \<Rightarrow> state" where
  "setEdgeOpacity v duration s =
     foldl (\<lambda>s' child. gsap_to (Some (material child)) [(PropOpacity, v)] duration s')
       s (edgeGroup s)"

subsection \<open>Initialisation\<close>

text \<open>
  The module-level initialisers. The variables that \<open>let\<close> declares without a value
  hold placeholders until init assigns them; no handler is registered before init.
\<close>

definition script_setup :: state where
  "script_setup =
     \<lparr>currentState = Idle, faces = [],
      cubeGroup = \<lparr>g_rotation = 0, g_position = 0, g_scale = 0\<rparr>,
      edgeGroup = [], mouse = (0, 0), heap = [], now = 0, callbacks = [], tweens = [],
      pushes = []\<rparr>"

text \<open>
  One of the six blocks of init: create the mesh, set its position and rotation, and push
  the table entry, whose cube transform is a \<open>clone()\<close> of the mesh transform and whose
  net and menu transforms are new objects. The six blocks differ in the constants only
  (the front block sets no rotation, which leaves it at zero).
\<close>

definition addFace :: "string \<Rightarrow> nat \<Rightarrow> real \<times> real \<times> real \<Rightarrow> real \<times> real \<times> real
    \<Rightarrow> real \<times> real \<times> real \<Rightarrow> real \<times> real \<times> real \<Rightarrow> state \<Rightarrow> state" where
  "addFace nm color pos rot netPos menuPos s =
     (let (m, h1) = createFace color (heap s);
          h2 = (case pos of (x, y, z) \<Rightarrow> h1[position m := Vec x y z]);
          h3 = (case rot of (x, y, z) \<Rightarrow> h2[rotation m := Vec x y z]);
          (cp, h4) = clone (position m) h3;
          (cr, h5) = clone (rotation m) h4;
          (np, h6) = (case netPos of (x, y, z) \<Rightarrow> alloc (Vec x y z) h5);
          (nr, h7) = alloc (Vec 0 0 0) h6;
          (mp, h8) = (case menuPos of (x, y, z) \<Rightarrow> alloc (Vec x y z) h7);
          (mr, h9) = alloc (Vec 0 0 0) h8
      in s\<lparr>faces := faces s @
               [\<lparr>name = nm, label = map_of faceMappings nm, mesh = m,
                 cubePosition = cp, cubeRotation = cr,
                 netPosition = np, netRotation = nr,
                 menuPosition = mp, menuRotation = mr\<rparr>],
           heap := h9\<rparr>)"

definition init :: "state \<Rightarrow> state" where
  "init s =
     (let (grot, h1) = alloc (Vec 0 0 0) (heap s);
          (gpos, h2) = alloc (Vec 0 0 0) h1;
          (gscale, h3) = alloc (Vec 1 1 1) h2;
          h4 = h3[grot := set_prop PropX (- arctan (sqrt 2)) (h3 ! grot)];
          h5 = h4[grot := set_prop PropY (pi / 4) (h4 ! grot)];
          (edges, h6) =
            foldl (\<lambda>(es, h) (orientation, center).
                     let (e, h') = createEdge orientation center h in (es @ [e], h'))
              ([], h5) edgesData;
          s1 = s\<lparr>cubeGroup := \<lparr>g_rotation = grot, g_position = gpos, g_scale = gscale\<rparr>,
                 edgeGroup := edges, mouse := (0, 0), heap := h6\<rparr>;
          s2 = addFace ''front'' 0xff6b6b (0, 0, cubeSize / 2) (0, 0, 0)
                 (-0.5, 0, 0) (0, 1.5, 0) s1;
          s3 = addFace ''right'' 0x6bc1ff (cubeSize / 2, 0, 0) (0, pi / 2, 0)
                 (0.5, 0, 0) (0, -0.5, 0) s2;
          s4 = addFace ''left'' 0x6bff95 (- cubeSize / 2, 0, 0) (0, - pi / 2, 0)
                 (-1.5, 0, 0) (0, 0.5, 0) s3;
          s5 = addFace ''top'' 0xfff56b (0, cubeSize / 2, 0) (- pi / 2, 0, 0)
                 (-0.5, 1, 0) (0, 2.5, 0) s4;
          s6 = addFace ''bottom'' 0xb66bff (0, - cubeSize / 2, 0) (pi / 2, 0, 0)
                 (-0.5, -1, 0) (0, -1.5, 0) s5;
          s7 = addFace ''back'' 0xff9d6b (0, 0, - cubeSize / 2) (0, pi, 0)
                 (1.5, 0, 0) (0, -2.5, 0) s6
      in s7)"

text \<open>The state when the component has been mounted.\<close>

definition mounted :: state where
  "mounted = init script_setup"

subsection \<open>The two transitions\<close>

definition unfoldCubeNet :: "state \<Rightarrow> state" where
  "unfoldCubeNet s =
     (let s1 = s\<lparr>currentState := Transitioning\<rparr>;
          s2 = gsap_to (Some (g_rotation (cubeGroup s1))) [(PropX, 0), (PropY, 0)] 1 s1;
          s3 = gsap_to (Some (g_position (cubeGroup s2))) [(PropY, 0)] 0.5 s2;
          s4 = gsap_to (Some (g_scale (cubeGroup s3))) [(PropX, 1), (PropY, 1), (PropZ, 1)]
                 0.5 s3;
          s5 = foldl (\<lambda>s' face.
                   gsap_to (Some (rotation (mesh face)))
                     [(PropX, get_prop PropX (heap s' ! netRotation face)),
                      (PropY, get_prop PropY (heap s' ! netRotation face)),
                      (PropZ, get_prop PropZ (heap s' ! netRotation face))] 1
                     (gsap_to (Some (position (mesh face)))
                        [(PropX, get_prop PropX (heap s' ! netPosition face)),
                         (PropY, get_prop PropY (heap s' ! netPosition face)),
                         (PropZ, get_prop PropZ (heap s' ! netPosition face))] 1 s'))
                 s4 (faces s4);
          s6 = setEdgeOpacity 0 1 s5
      in gsap_delayedCall 1 SetNet s6)"

text \<open>The switch of the last callback of transitionToMenuAndNavigate.\<close>

definition routePath :: "string \<Rightarrow> string" where
  "routePath nm =
     (if nm = ''front'' then ''/web''
      else if nm = ''right'' then ''/3d''
      else if nm = ''left'' then ''/fullstack''
      else if nm = ''top'' then ''/about''
      else if nm = ''bottom'' then ''/projects''
      else if nm = ''back'' then ''/contact''
      else ''/'')"

definition menu_timeline :: "FaceData \<Rightarrow> state \<Rightarrow> timeline" where
  "menu_timeline selectedFace s =
     (let t0 = [];
          t1 = tl_call EdgeOpaque 0 t0;
          t2 = foldl (\<lambda>t face.
                   tl_to (Some (rotation (mesh face)))
                     [(PropX, get_prop PropX (heap s ! cubeRotation face)),
                      (PropY, get_prop PropY (heap s ! cubeRotation face)),
                      (PropZ, get_prop PropZ (heap s ! cubeRotation face))] 0.5 None 0
                     (tl_to (Some (position (mesh face)))
                        [(PropX, get_prop PropX (heap s ! cubePosition face)),
                         (PropY, get_prop PropY (heap s ! cubePosition face)),
                         (PropZ, get_prop PropZ (heap s ! cubePosition face))] 0.5 None 0 t))
                 t1 (faces s);
          t3 = tl_to (Some (g_scale (cubeGroup s)))
                 [(PropX, 0.5), (PropY, 0.5), (PropZ, 0.5)] 0.5 None 0.6 t2;
          t4 = tl_to (Some (g_position (cubeGroup s)))
                 [(PropX, -2.5), (PropY, 1.5), (PropZ, 0)] 0.5 None 0.6 t3;
          t5 = foldl (\<lambda>t face.
                   tl_to (Some (rotation (mesh face)))
                     [(PropX, get_prop PropX (heap s ! menuRotation face)),
                      (PropY, get_prop PropY (heap s ! menuRotation face)),
                      (PropZ, get_prop PropZ (heap s ! menuRotation face))] 0.5 None 1.2
                     (tl_to (Some (position (mesh face)))
                        [(PropX, get_prop PropX (heap s ! menuPosition face)),
                         (PropY, get_prop PropY (heap s ! menuPosition face)),
                         (PropZ, get_prop PropZ (heap s ! menuPosition face))] 0.5 None 1.2 t))
                 t4 (faces s);
          t6 = tl_to None [] 0.5 (Some EdgeFade) 1.2 t5
      in tl_call_end (MenuNavigate selectedFace) t6)"

definition transitionToMenuAndNavigate :: "FaceData \<Rightarrow> state \<Rightarrow> state" where
  "transitionToMenuAndNavigate selectedFace s =
     (if currentState s \<noteq> Net \<and> currentState s \<noteq> Menu then s
      else (let s1 = s\<lparr>currentState := Transitioning\<rparr>
            in play (menu_timeline selectedFace s1) s1))"

subsection \<open>Callbacks and the clock\<close>

fun run_action :: "action \<Rightarrow> state \<Rightarrow> state" where
  "run_action SetNet s = s\<lparr>currentState := Net\<rparr>"
| "run_action EdgeOpaque s = setEdgeOpacity 1 0 s"
| "run_action EdgeFade s = setEdgeOpacity 0 0.5 s"
| "run_action (MenuNavigate selectedFace) s =
     router_push (routePath (name selectedFace)) (s\<lparr>currentState := Menu\<rparr>)"

text \<open>
  One update of gsap's clock, \<open>dt\<close> seconds after the last one: the calls that are due
  are made in the order of their times, then the tweens that have started are rendered
  in the order of their start times, and those that have reached their end are dropped.
\<close>

definition run_due :: "state \<Rightarrow> state" where
  "run_due s =
     (let due = sort_key fst (filter (\<lambda>c. fst c \<le> now s) (callbacks s));
          rest = filter (\<lambda>c. \<not> fst c \<le> now s) (callbacks s)
      in foldl (\<lambda>s' c. run_action (snd c) s') (s\<lparr>callbacks := rest\<rparr>) due)"

definition tick :: "real \<Rightarrow> state \<Rightarrow> state" where
  "tick dt s = render_tweens (run_due (s\<lparr>now := now s + dt\<rparr>))"

subsection \<open>The render loop and the pointer handlers\<close>

text \<open>animate, with the value of \<open>Date.now()\<close>; drawing the scene changes no variable.\<close>

definition animate :: "real \<Rightarrow> state \<Rightarrow> state" where
  "animate dateNow s =
     (if currentState s = Idle then
        (let time = dateNow * 0.002;
             h = heap s;
             gp = g_position (cubeGroup s);
             h1 = h[gp := set_prop PropY (sin (time * 0.8) * 0.1) (h ! gp)];
             scale = 1 + sin (time * 0.5) * 0.03
         in s\<lparr>heap := h1[g_scale (cubeGroup s) := Vec scale scale scale]\<rparr>)
      else s)"

record DOMRect =
  rect_left :: real
  rect_top :: real
  rect_width :: real
  rect_height :: real

record MouseEvent =
  clientX :: real
  clientY :: real

record Touch =
  touch_clientX :: real
  touch_clientY :: real

record TouchEvent =
  touches :: "Touch list"

text \<open>
  What the browser and three.js answer at the time of one event: the rectangle of the
  canvas, and \<open>raycaster.intersectObjects(cubeGroup.children, true)\<close> for the ray through
  the given normalized device coordinates, nearest intersection first, as the meshes hit.
  A rectangle of width or height zero gives the handler a quotient that is not a finite
  number; here it is the \<open>x / 0 = 0\<close> of HOL, and the value only reaches intersectObjects.
\<close>

record env =
  getBoundingClientRect :: DOMRect
  intersectObjects :: "real \<times> real \<Rightarrow> mesh list"

definition onCanvasClick :: "env \<Rightarrow> MouseEvent \<Rightarrow> state \<Rightarrow> state" where
  "onCanvasClick e event s =
     (let rect = getBoundingClientRect e;
          mx = ((clientX event - rect_left rect) / rect_width rect) * 2 - 1;
          my = - ((clientY event - rect_top rect) / rect_height rect) * 2 + 1;
          s1 = s\<lparr>mouse := (mx, my)\<rparr>;
          intersects = intersectObjects e (mouse s1)
      in if length intersects > 0 then
           (let clickedMesh = intersects ! 0
            in if isEdge clickedMesh then s1
               else if currentState s1 = Idle then unfoldCubeNet s1
               else if currentState s1 = Net \<or> currentState s1 = Menu then
                 (case find (\<lambda>f. mesh f = clickedMesh) (faces s1) of
                    Some face \<Rightarrow> transitionToMenuAndNavigate face s1
                  | None \<Rightarrow> s1)
               else s1)
         else s1)"

datatype error = TypeError

text \<open>
  onCanvasTouch: \<open>event.touches[0]\<close> of an empty list is undefined, and reading its
  clientX throws.
\<close>

definition onCanvasTouch :: "env \<Rightarrow> TouchEvent \<Rightarrow> state \<Rightarrow> error + state" where
  "onCanvasTouch e event s =
     (case touches event of
        [] \<Rightarrow> Inl TypeError
      | touch # rest \<Rightarrow>
          Inr (onCanvasClick e
                 \<lparr>clientX = touch_clientX touch, clientY = touch_clientY touch\<rparr> s))"

subsection \<open>Runs\<close>

datatype event =
  Click env MouseEvent
| TouchStart env TouchEvent
| Tick real
| Frame real

fun dispatch :: "event \<Rightarrow> state \<Rightarrow> error + state" where
  "dispatch (Click e ev) s = Inr (onCanvasClick e ev s)"
| "dispatch (TouchStart e ev) s = onCanvasTouch e ev s"
| "dispatch (Tick dt) s = Inr (tick dt s)"
| "dispatch (Frame dateNow) s = Inr (animate dateNow s)"

text \<open>An exception thrown by a listener ends that listener and nothing else.\<close>

definition step :: "state \<Rightarrow> event \<Rightarrow> state" where
  "step s ev = (case dispatch ev s of Inl err \<Rightarrow> s | Inr s' \<Rightarrow> s')"

definition run :: "event list \<Rightarrow> state \<Rightarrow> state" where
  "run evs s = foldl step s evs"

text \<open>The clock does not run backwards.\<close>

fun valid_event :: "event \<Rightarrow> bool" where
  "valid_event (Tick dt) = (0 \<le> dt)"
| "valid_event ev = True"

fun elapsed :: "event list \<Rightarrow> real" where
  "elapsed [] = 0"
| "elapsed (Tick dt # evs) = dt + elapsed evs"
| "elapsed (ev # evs) = elapsed evs"

subsection \<open>Notions used in the statements\<close>

text \<open>
  The normalized device coordinates that onCanvasClick computes for an event, and the
  list of meshes that it then receives from the raycaster.
\<close>

definition pointer_ndc :: "env \<Rightarrow> MouseEvent \<Rightarrow> real \<times> real" where
  "pointer_ndc e event =
     (let rect = getBoundingClientRect e
      in (((clientX event - rect_left rect) / rect_width rect) * 2 - 1,
          - ((clientY event - rect_top rect) / rect_height rect) * 2 + 1))"

definition pick :: "env \<Rightarrow> MouseEvent \<Rightarrow> mesh list" where
  "pick e event = intersectObjects e (pointer_ndc e event)"

text \<open>
  The calls that end a transition, with the state each sets and the paths it pushes.
\<close>

fun completion :: "action \<Rightarrow> (CubeState \<times> string list) option" where
  "completion SetNet = Some (Net, [])"
| "completion (MenuNavigate face) = Some (Menu, [routePath (name face)])"
| "completion a = None"

definition in_flight :: "state \<Rightarrow> (real \<times> action) list" where
  "in_flight s = filter (\<lambda>c. completion (snd c) \<noteq> None) (callbacks s)"

text \<open>
  A transition is pending: the state is Transitioning, the paths pushed so far are \<open>ps\<close>,
  and the one completing call, \<open>a\<close>, is due at \<open>T\<close>, which is still ahead and not before
  any other call.
\<close>

definition pending :: "state \<Rightarrow> real \<Rightarrow> action \<Rightarrow> string list \<Rightarrow> bool" where
  "pending s T a ps \<longleftrightarrow>
     currentState s = Transitioning \<and> pushes s = ps \<and> now s < T \<and>
     completion a \<noteq> None \<and> in_flight s = [(T, a)] \<and>
     list_all (\<lambda>c. fst c \<le> T) (callbacks s)"

text \<open>The calls and the tweens that a child of a timeline starting at \<open>t\<close> stands for.\<close>

fun child_calls :: "real \<Rightarrow> tl_child \<Rightarrow> (real \<times> action) list" where
  "child_calls t (TlCall pos a) = [(t + pos, a)]"
| "child_calls t (TlTo pos tgt vars d onStart) =
     (case onStart of None \<Rightarrow> [] | Some a \<Rightarrow> [(t + pos, a)])"

fun child_tweens :: "real \<Rightarrow> tl_child \<Rightarrow> tween list" where
  "child_tweens t (TlCall pos a) = []"
| "child_tweens t (TlTo pos tgt vars d onStart) =
     [\<lparr>tw_target = tgt, tw_vars = vars, tw_start = t + pos, tw_duration = d,
       tw_from = None\<rparr>]"

fun child_target :: "tl_child \<Rightarrow> addr option" where
  "child_target (TlCall pos a) = None"
| "child_target (TlTo pos tgt vars d onStart) = tgt"

text \<open>The tween that setEdgeOpacity starts on the material of one edge.\<close>

definition edge_tween :: "real \<Rightarrow> real \<Rightarrow> real \<Rightarrow> mesh \<Rightarrow> tween" where
  "edge_tween t v d child =
     \<lparr>tw_target = Some (material child), tw_vars = [(PropOpacity, v)], tw_start = t,
      tw_duration = d, tw_from = None\<rparr>"

text \<open>
  The objects that tweens and the render loop write: the transform of the group, the
  materials of the edges, and the transforms of the face meshes.
\<close>

definition mutable_addrs :: "state \<Rightarrow> addr set" where
  "mutable_addrs s =
     {g_rotation (cubeGroup s), g_position (cubeGroup s), g_scale (cubeGroup s)}
     \<union> material ` set (edgeGroup s)
     \<union> (\<lambda>f. position (mesh f)) ` set (faces s)
     \<union> (\<lambda>f. rotation (mesh f)) ` set (faces s)"

definition targets_ok :: "addr set \<Rightarrow> tween list \<Rightarrow> bool" where
  "targets_ok M tws \<longleftrightarrow> list_all (\<lambda>tw. case tw_target tw of None \<Rightarrow> True | Some a \<Rightarrow> a \<in> M) tws"

text \<open>The layout table: for every face, its name and its six stored transforms.\<close>

definition face_table_addrs :: "FaceData \<Rightarrow> addr list" where
  "face_table_addrs f =
     [cubePosition f, cubeRotation f, netPosition f, netRotation f,
      menuPosition f, menuRotation f]"

definition layout_table :: "state \<Rightarrow> (string \<times> obj list) list" where
  "layout_table s = map (\<lambda>f. (name f, map (\<lambda>a. heap s ! a) (face_table_addrs f))) (faces s)"

text \<open>The navigation table as the specification gives it.\<close>

definition route_table :: "(string \<times> string) list" where
  "route_table =
     [(''front'', ''/web''), (''right'', ''/3d''), (''left'', ''/fullstack''),
      (''top'', ''/about''), (''bottom'', ''/projects''), (''back'', ''/contact'')]"

text \<open>
  Scenes for the concrete runs: a canvas of 800 by 600 pixels, a click in its middle, and
  rays that meet the front face, the back face, nothing, one edge, and one edge in front
  of the front face.
\<close>

definition rect0 :: DOMRect where
  "rect0 = \<lparr>rect_left = 0, rect_top = 0, rect_width = 800, rect_height = 600\<rparr>"

definition click0 :: MouseEvent where
  "click0 = \<lparr>clientX = 400, clientY = 300\<rparr>"

definition env_front :: env where
  "env_front =
     \<lparr>getBoundingClientRect = rect0,
      intersectObjects = (\<lambda>xy. map mesh (take 1 (faces mounted)))\<rparr>"

definition env_back :: env where
  "env_back =
     \<lparr>getBoundingClientRect = rect0,
      intersectObjects = (\<lambda>xy. map mesh (drop 5 (faces mounted)))\<rparr>"

definition env_none :: env where
  "env_none = \<lparr>getBoundingClientRect = rect0, intersectObjects = (\<lambda>xy. [])\<rparr>"

definition env_edge :: env where
  "env_edge =
     \<lparr>getBoundingClientRect = rect0,
      intersectObjects = (\<lambda>xy. take 1 (edgeGroup mounted))\<rparr>"

definition env_edge_front :: env where
  "env_edge_front =
     \<lparr>getBoundingClientRect = rect0,
      intersectObjects = (\<lambda>xy. take 1 (edgeGroup mounted) @ map mesh (take 1 (faces mounted)))\<rparr>"

text \<open>
  The tweens of unfoldCubeNet and the children of the timeline of
  transitionToMenuAndNavigate, written out as lists.
\<close>
definition vec_vars :: "obj \<Rightarrow> (propname \<times> real) list" where
  "vec_vars ob = [(PropX, get_prop PropX ob), (PropY, get_prop PropY ob), (PropZ, get_prop PropZ ob)]"

definition vec_tween :: "real \<Rightarrow> real \<Rightarrow> addr \<Rightarrow> obj \<Rightarrow> tween" where
  "vec_tween t d a ob =
     \<lparr>tw_target = Some a, tw_vars = vec_vars ob, tw_start = t, tw_duration = d, tw_from = None\<rparr>"

definition unfold_tweens :: "state \<Rightarrow> tween list" where
  "unfold_tweens s =
     [\<lparr>tw_target = Some (g_rotation (cubeGroup s)), tw_vars = [(PropX, 0), (PropY, 0)],
       tw_start = now s, tw_duration = 1, tw_from = None\<rparr>,
      \<lparr>tw_target = Some (g_position (cubeGroup s)), tw_vars = [(PropY, 0)],
       tw_start = now s, tw_duration = 0.5, tw_from = None\<rparr>,
      \<lparr>tw_target = Some (g_scale (cubeGroup s)), tw_vars = [(PropX, 1), (PropY, 1), (PropZ, 1)],
       tw_start = now s, tw_duration = 0.5, tw_from = None\<rparr>]
     @ concat (map (\<lambda>face.
         [vec_tween (now s) 1 (position (mesh face)) (heap s ! netPosition face),
          vec_tween (now s) 1 (rotation (mesh face)) (heap s ! netRotation face)]) (faces s))
     @ map (edge_tween (now s) 0 1) (edgeGroup s)"

definition menu_children :: "FaceData \<Rightarrow> state \<Rightarrow> timeline" where
  "menu_children selectedFace s =
     [TlCall 0 EdgeOpaque]
     @ concat (map (\<lambda>face.
         [TlTo 0 (Some (position (mesh face))) (vec_vars (heap s ! cubePosition face)) 0.5 None,
          TlTo 0 (Some (rotation (mesh face))) (vec_vars (heap s ! cubeRotation face)) 0.5 None])
         (faces s))
     @ [TlTo 0.6 (Some (g_scale (cubeGroup s))) [(PropX, 0.5), (PropY, 0.5), (PropZ, 0.5)] 0.5 None,
        TlTo 0.6 (Some (g_position (cubeGroup s))) [(PropX, -2.5), (PropY, 1.5), (PropZ, 0)] 0.5 None]
     @ concat (map (\<lambda>face.
         [TlTo 1.2 (Some (position (mesh face))) (vec_vars (heap s ! menuPosition face)) 0.5 None,
          TlTo 1.2 (Some (rotation (mesh face))) (vec_vars (heap s ! menuRotation face)) 0.5 None])
         (faces s))
     @ [TlTo 1.2 None [] 0.5 (Some EdgeFade), TlCall 1.7 (MenuNavigate selectedFace)]"

text \<open>
  What holds of the calls in every state that a run reaches: outside a transition none is
  left, and inside one exactly one completing call is left, it is still ahead, and no
  other call is due after it.
\<close>

definition flight_inv :: "state \<Rightarrow> bool" where
  "flight_inv s =
     (if currentState s = Transitioning then
        (case in_flight s of
           [(T, a)] \<Rightarrow> now s < T \<and> list_all (\<lambda>c. fst c \<le> T) (callbacks s)
         | _ \<Rightarrow> False)
      else callbacks s = [])"

text \<open>Pointer events, and the click that onCanvasTouch makes of a touch.\<close>

fun is_pointer :: "event \<Rightarrow> bool" where
  "is_pointer (Click e ev) = True"
| "is_pointer (TouchStart e ev) = True"
| "is_pointer ev = False"

definition touch_point :: "Touch \<Rightarrow> MouseEvent" where
  "touch_point touch = \<lparr>clientX = touch_clientX touch, clientY = touch_clientY touch\<rparr>"

text \<open>The click that a pointer event amounts to, when it has one.\<close>

fun pointer_at :: "event \<Rightarrow> (env \<times> MouseEvent) option" where
  "pointer_at (Click e ev) = Some (e, ev)"
| "pointer_at (TouchStart e tev) =
     (case touches tev of [] \<Rightarrow> None | touch # rest \<Rightarrow> Some (e, touch_point touch))"
| "pointer_at ev = None"

text \<open>No call is due later than 1.7 seconds from now.\<close>

definition deadline_inv :: "state \<Rightarrow> bool" where
  "deadline_inv s = list_all (\<lambda>c. fst c \<le> now s + 1.7) (callbacks s)"

text \<open>The addresses of the stored transforms of the layout table.\<close>

definition table_addrs :: "state \<Rightarrow> addr list" where
  "table_addrs s = concat (map face_table_addrs (faces s))"

section \<open>Properties of the operations\<close>

lemma foldl_edge_tweens:
  "foldl (\<lambda>s' child. gsap_to (Some (material child)) [(PropOpacity, v)] d s') s xs =
     s\<lparr>tweens := tweens s @ map (edge_tween (now s) v d) xs\<rparr>"
  by (induction xs arbitrary: s) (simp_all add: gsap_to_def edge_tween_def)

lemma setEdgeOpacity_eq:
  "setEdgeOpacity v d s = s\<lparr>tweens := tweens s @ map (edge_tween (now s) v d) (edgeGroup s)\<rparr>"
  by (simp add: setEdgeOpacity_def foldl_edge_tweens)

lemma play_eq:
  "play tml s =
     s\<lparr>callbacks := callbacks s @ concat (map (child_calls (now s)) tml),
       tweens := tweens s @ concat (map (child_tweens (now s)) tml)\<rparr>"
  unfolding play_def
proof (induction tml arbitrary: s)
  case Nil
  show ?case by simp
next
  case (Cons c tml)
  show ?case
    by (cases c) (simp_all add: Cons.IH split: option.split)
qed

lemma foldl_net_tweens:
  "foldl (\<lambda>s' face.
       gsap_to (Some (rotation (mesh face)))
         [(PropX, get_prop PropX (heap s' ! netRotation face)),
          (PropY, get_prop PropY (heap s' ! netRotation face)),
          (PropZ, get_prop PropZ (heap s' ! netRotation face))] 1
         (gsap_to (Some (position (mesh face)))
            [(PropX, get_prop PropX (heap s' ! netPosition face)),
             (PropY, get_prop PropY (heap s' ! netPosition face)),
             (PropZ, get_prop PropZ (heap s' ! netPosition face))] 1 s')) s fs =
   s\<lparr>tweens := tweens s @ concat (map (\<lambda>face.
         [vec_tween (now s) 1 (position (mesh face)) (heap s ! netPosition face),
          vec_tween (now s) 1 (rotation (mesh face)) (heap s ! netRotation face)]) fs)\<rparr>"
  by (induction fs arbitrary: s) (simp_all add: gsap_to_def vec_tween_def vec_vars_def)

lemma unfoldCubeNet_eq:
  "unfoldCubeNet s =
     s\<lparr>currentState := Transitioning,
       tweens := tweens s @ unfold_tweens s,
       callbacks := callbacks s @ [(now s + 1, SetNet)]\<rparr>"
  unfolding unfoldCubeNet_def Let_def foldl_net_tweens setEdgeOpacity_eq
  by (simp add: gsap_to_def gsap_delayedCall_def unfold_tweens_def)

lemma foldl_tl_to:
  "foldl (\<lambda>t face. tl_to (tg2 face) (vs2 face) d2 None p2 (tl_to (tg1 face) (vs1 face) d1 None p1 t)) t0 fs =
     t0 @ concat (map (\<lambda>face. [TlTo p1 (tg1 face) (vs1 face) d1 None, TlTo p2 (tg2 face) (vs2 face) d2 None]) fs)"
  by (induction fs arbitrary: t0) (simp_all add: tl_to_def)

lemma foldr_max_le: "\<forall>x\<in>set xs. x \<le> (b::real) \<Longrightarrow> foldr max xs b = b"
  by (induction xs) (simp_all add: max_def)

lemma tl_duration_snoc:
  "\<forall>c\<in>set tml. child_end c \<le> child_end c' \<Longrightarrow> 0 \<le> child_end c' \<Longrightarrow>
   tl_duration (tml @ [c']) = child_end c'"
  by (simp add: tl_duration_def foldr_max_le max_def)

lemma menu_timeline_eq: "menu_timeline selectedFace s = menu_children selectedFace s"
proof -
  let ?pre = "[TlCall 0 EdgeOpaque]
     @ concat (map (\<lambda>face.
         [TlTo 0 (Some (position (mesh face))) (vec_vars (heap s ! cubePosition face)) 0.5 None,
          TlTo 0 (Some (rotation (mesh face))) (vec_vars (heap s ! cubeRotation face)) 0.5 None])
         (faces s))
     @ [TlTo 0.6 (Some (g_scale (cubeGroup s))) [(PropX, 0.5), (PropY, 0.5), (PropZ, 0.5)] 0.5 None,
        TlTo 0.6 (Some (g_position (cubeGroup s))) [(PropX, -2.5), (PropY, 1.5), (PropZ, 0)] 0.5 None]
     @ concat (map (\<lambda>face.
         [TlTo 1.2 (Some (position (mesh face))) (vec_vars (heap s ! menuPosition face)) 0.5 None,
          TlTo 1.2 (Some (rotation (mesh face))) (vec_vars (heap s ! menuRotation face)) 0.5 None])
         (faces s))"
  have "\<forall>c\<in>set ?pre. child_end c \<le> child_end (TlTo 1.2 None [] 0.5 (Some EdgeFade))"
    by auto
  then have d: "tl_duration (?pre @ [TlTo 1.2 None [] 0.5 (Some EdgeFade)]) = 1.7"
    by (subst tl_duration_snoc) simp_all
  have "menu_timeline selectedFace s =
      tl_call_end (MenuNavigate selectedFace) (?pre @ [TlTo 1.2 None [] 0.5 (Some EdgeFade)])"
    unfolding menu_timeline_def Let_def foldl_tl_to
    by (simp add: tl_call_def tl_to_def vec_vars_def)
  also have "\<dots> = menu_children selectedFace s"
    unfolding tl_call_end_def d by (simp add: menu_children_def)
  finally show ?thesis .
qed


lemma face_children_calls:
  "concat (map (child_calls t)
     (concat (map (\<lambda>face. [TlTo p1 (tg1 face) (vs1 face) d1 None, TlTo p2 (tg2 face) (vs2 face) d2 None]) fs))) = []"
  by (induction fs) simp_all

lemma menu_children_calls:
  "concat (map (child_calls t) (menu_children selectedFace s)) =
     [(t + 0, EdgeOpaque), (t + 1.2, EdgeFade), (t + 1.7, MenuNavigate selectedFace)]"
  by (simp add: menu_children_def face_children_calls)

lemma menu_children_state [simp]:
  "menu_children selectedFace (s\<lparr>currentState := c\<rparr>) = menu_children selectedFace s"
  by (simp add: menu_children_def)

lemma transitionToMenuAndNavigate_eq:
  assumes "currentState s = Net \<or> currentState s = Menu"
  shows "transitionToMenuAndNavigate selectedFace s =
     s\<lparr>currentState := Transitioning,
       callbacks := callbacks s @
         [(now s + 0, EdgeOpaque), (now s + 1.2, EdgeFade), (now s + 1.7, MenuNavigate selectedFace)],
       tweens := tweens s @ concat (map (child_tweens (now s)) (menu_children selectedFace s))\<rparr>"
  using assms
  by (auto simp add: transitionToMenuAndNavigate_def Let_def play_eq menu_timeline_eq
      menu_children_calls)

lemma transitionToMenuAndNavigate_guard:
  "currentState s \<noteq> Net \<Longrightarrow> currentState s \<noteq> Menu \<Longrightarrow>
   transitionToMenuAndNavigate selectedFace s = s"
  by (simp add: transitionToMenuAndNavigate_def)

text \<open>The click handler, by the list of meshes that the ray meets.\<close>

lemma onCanvasClick_pick:
  "onCanvasClick e event s =
     (let s1 = s\<lparr>mouse := pointer_ndc e event\<rparr>
      in case pick e event of
           [] \<Rightarrow> s1
         | clickedMesh # rest \<Rightarrow>
             if isEdge clickedMesh then s1
             else if currentState s = Idle then unfoldCubeNet s1
             else if currentState s = Net \<or> currentState s = Menu then
               (case find (\<lambda>f. mesh f = clickedMesh) (faces s) of
                  Some face \<Rightarrow> transitionToMenuAndNavigate face s1
                | None \<Rightarrow> s1)
             else s1)"
  by (cases "pick e event")
    (simp_all add: onCanvasClick_def pick_def pointer_ndc_def Let_def)

lemma run_action_frame [simp]:
  "faces (run_action a s) = faces s"
  "cubeGroup (run_action a s) = cubeGroup s"
  "edgeGroup (run_action a s) = edgeGroup s"
  "heap (run_action a s) = heap s"
  "now (run_action a s) = now s"
  "mouse (run_action a s) = mouse s"
  "callbacks (run_action a s) = callbacks s"
  by (cases a; simp add: setEdgeOpacity_eq router_push_def)+

lemma run_action_completion:
  "currentState (run_action a s) =
     (case completion a of None \<Rightarrow> currentState s | Some (st, ps) \<Rightarrow> st)"
  "pushes (run_action a s) =
     (case completion a of None \<Rightarrow> pushes s | Some (st, ps) \<Rightarrow> pushes s @ ps)"
  by (cases a; simp add: setEdgeOpacity_eq router_push_def)+

lemma run_action_tweens:
  "\<exists>tws. tweens (run_action a s) = tweens s @ tws \<and>
     (\<forall>tw\<in>set tws. \<exists>child\<in>set (edgeGroup s). tw_target tw = Some (material child))"
  by (cases a) (auto simp add: setEdgeOpacity_eq router_push_def edge_tween_def)

lemma foldl_preserve:
  "(\<And>s x. f (g s x) = f s) \<Longrightarrow> f (foldl g s xs) = f s"
  by (induction xs arbitrary: s) simp_all

lemma run_actions_frame [simp]:
  "faces (foldl (\<lambda>s' c. run_action (snd c) s') s due) = faces s"
  "cubeGroup (foldl (\<lambda>s' c. run_action (snd c) s') s due) = cubeGroup s"
  "edgeGroup (foldl (\<lambda>s' c. run_action (snd c) s') s due) = edgeGroup s"
  "heap (foldl (\<lambda>s' c. run_action (snd c) s') s due) = heap s"
  "now (foldl (\<lambda>s' c. run_action (snd c) s') s due) = now s"
  "mouse (foldl (\<lambda>s' c. run_action (snd c) s') s due) = mouse s"
  "callbacks (foldl (\<lambda>s' c. run_action (snd c) s') s due) = callbacks s"
  by (rule foldl_preserve, simp)+

lemma run_actions_none:
  "list_all (\<lambda>c. completion (snd c) = None) due \<Longrightarrow>
   currentState (foldl (\<lambda>s' c. run_action (snd c) s') s due) = currentState s \<and>
   pushes (foldl (\<lambda>s' c. run_action (snd c) s') s due) = pushes s"
  by (induction due arbitrary: s) (simp_all add: run_action_completion)

lemma run_actions_one:
  "filter (\<lambda>c. completion (snd c) \<noteq> None) due = [(T, a)] \<Longrightarrow>
   completion a = Some (st, ps) \<Longrightarrow>
   currentState (foldl (\<lambda>s' c. run_action (snd c) s') s due) = st \<and>
   pushes (foldl (\<lambda>s' c. run_action (snd c) s') s due) = pushes s @ ps"
proof (induction due arbitrary: s)
  case Nil
  then show ?case by simp
next
  case (Cons c due)
  show ?case
  proof (cases "completion (snd c) = None")
    case True
    with Cons.prems have "filter (\<lambda>c. completion (snd c) \<noteq> None) due = [(T, a)]"
      by simp
    from Cons.IH [OF this Cons.prems(2), of "run_action (snd c) s"] True
    show ?thesis by (simp add: run_action_completion)
  next
    case False
    with Cons.prems have c: "c = (T, a)"
      and rest: "filter (\<lambda>c. completion (snd c) \<noteq> None) due = []"
      by simp_all
    from rest have "list_all (\<lambda>c. completion (snd c) = None) due"
      unfolding list_all_iff filter_empty_conv by blast
    from run_actions_none [OF this, of "run_action (snd c) s"] c Cons.prems(2)
    show ?thesis by (simp add: run_action_completion)
  qed
qed

lemma render_tweens_frame [simp]:
  "currentState (render_tweens s) = currentState s"
  "faces (render_tweens s) = faces s"
  "cubeGroup (render_tweens s) = cubeGroup s"
  "edgeGroup (render_tweens s) = edgeGroup s"
  "now (render_tweens s) = now s"
  "mouse (render_tweens s) = mouse s"
  "callbacks (render_tweens s) = callbacks s"
  "pushes (render_tweens s) = pushes s"
  by (simp_all add: render_tweens_def split: prod.split)

lemma tick_frame [simp]:
  "faces (tick dt s) = faces s"
  "cubeGroup (tick dt s) = cubeGroup s"
  "edgeGroup (tick dt s) = edgeGroup s"
  "now (tick dt s) = now s + dt"
  "mouse (tick dt s) = mouse s"
  by (simp_all add: tick_def run_due_def Let_def)

lemma tick_callbacks:
  "callbacks (tick dt s) = filter (\<lambda>c. \<not> fst c \<le> now s + dt) (callbacks s)"
  by (simp add: tick_def run_due_def Let_def)


lemma transitionToMenuAndNavigate_frame [simp]:
  "faces (transitionToMenuAndNavigate f s) = faces s"
  "cubeGroup (transitionToMenuAndNavigate f s) = cubeGroup s"
  "edgeGroup (transitionToMenuAndNavigate f s) = edgeGroup s"
  "heap (transitionToMenuAndNavigate f s) = heap s"
  "now (transitionToMenuAndNavigate f s) = now s"
  "mouse (transitionToMenuAndNavigate f s) = mouse s"
  "pushes (transitionToMenuAndNavigate f s) = pushes s"
  by (simp_all add: transitionToMenuAndNavigate_def Let_def play_eq)

lemma unfoldCubeNet_frame [simp]:
  "faces (unfoldCubeNet s) = faces s"
  "cubeGroup (unfoldCubeNet s) = cubeGroup s"
  "edgeGroup (unfoldCubeNet s) = edgeGroup s"
  "heap (unfoldCubeNet s) = heap s"
  "now (unfoldCubeNet s) = now s"
  "mouse (unfoldCubeNet s) = mouse s"
  "pushes (unfoldCubeNet s) = pushes s"
  by (simp_all add: unfoldCubeNet_eq)

lemma onCanvasClick_frame [simp]:
  "faces (onCanvasClick e event s) = faces s"
  "cubeGroup (onCanvasClick e event s) = cubeGroup s"
  "edgeGroup (onCanvasClick e event s) = edgeGroup s"
  "heap (onCanvasClick e event s) = heap s"
  "now (onCanvasClick e event s) = now s"
  "pushes (onCanvasClick e event s) = pushes s"
  by (simp_all add: onCanvasClick_pick Let_def split: list.split option.split)

lemma onCanvasClick_transitioning:
  "currentState s = Transitioning \<Longrightarrow>
   onCanvasClick e event s = s\<lparr>mouse := pointer_ndc e event\<rparr>"
  by (simp add: onCanvasClick_pick Let_def split: list.split)

lemma animate_frame [simp]:
  "currentState (animate d s) = currentState s"
  "faces (animate d s) = faces s"
  "cubeGroup (animate d s) = cubeGroup s"
  "edgeGroup (animate d s) = edgeGroup s"
  "now (animate d s) = now s"
  "mouse (animate d s) = mouse s"
  "callbacks (animate d s) = callbacks s"
  "tweens (animate d s) = tweens s"
  "pushes (animate d s) = pushes s"
  by (simp_all add: animate_def Let_def)

lemma animate_not_idle: "currentState s \<noteq> Idle \<Longrightarrow> animate d s = s"
  by (simp add: animate_def)

lemma step_cases:
  "step s (Click e ev) = onCanvasClick e ev s"
  "step s (TouchStart e tev) =
     (case touches tev of [] \<Rightarrow> s
      | touch # rest \<Rightarrow> onCanvasClick e \<lparr>clientX = touch_clientX touch, clientY = touch_clientY touch\<rparr> s)"
  "step s (Tick dt) = tick dt s"
  "step s (Frame d) = animate d s"
  by (simp_all add: step_def onCanvasTouch_def split: list.split)

lemma step_frame [simp]:
  "faces (step s ev) = faces s"
  "cubeGroup (step s ev) = cubeGroup s"
  "edgeGroup (step s ev) = edgeGroup s"
  by (cases ev; simp add: step_cases split: list.split)+

lemma run_frame [simp]:
  "faces (run evs s) = faces s"
  "cubeGroup (run evs s) = cubeGroup s"
  "edgeGroup (run evs s) = edgeGroup s"
  unfolding run_def by (rule foldl_preserve, simp)+

lemma run_Nil [simp]: "run [] s = s"
  by (simp add: run_def)

lemma run_Cons [simp]: "run (ev # evs) s = run evs (step s ev)"
  by (simp add: run_def)

lemma run_append: "run (evs @ evs') s = run evs' (run evs s)"
  by (simp add: run_def)

lemma now_step: "now (step s ev) = now s + elapsed [ev]"
  by (cases ev) (simp_all add: step_cases split: list.split)

lemma elapsed_Cons: "elapsed (ev # evs) = elapsed [ev] + elapsed evs"
  by (cases ev) simp_all

lemma now_run: "now (run evs s) = now s + elapsed evs"
proof (induction evs arbitrary: s)
  case Nil
  show ?case by simp
next
  case (Cons ev evs)
  show ?case
    by (simp add: Cons.IH now_step elapsed_Cons [of ev evs])
qed

lemma elapsed_nonneg: "list_all valid_event evs \<Longrightarrow> 0 \<le> elapsed evs"
proof (induction evs)
  case Nil
  show ?case by simp
next
  case (Cons ev evs)
  then show ?case by (cases ev) simp_all
qed

text \<open>The clock and the calls that are due.\<close>

lemma tick_no_completion:
  assumes "\<forall>c\<in>set (callbacks s). fst c \<le> now s + dt \<longrightarrow> completion (snd c) = None"
  shows "currentState (tick dt s) = currentState s \<and> pushes (tick dt s) = pushes s"
proof -
  have "list_all (\<lambda>c. completion (snd c) = None)
          (sort_key fst (filter (\<lambda>c. fst c \<le> now s + dt) (callbacks s)))"
    using assms by (simp add: list_all_iff)
  from run_actions_none [OF this] show ?thesis
    by (simp add: tick_def run_due_def Let_def)
qed

lemma tick_one_completion:
  assumes "filter (\<lambda>c. completion (snd c) \<noteq> None)
             (filter (\<lambda>c. fst c \<le> now s + dt) (callbacks s)) = [(T, a)]"
    and "completion a = Some (st, ps)"
  shows "currentState (tick dt s) = st \<and> pushes (tick dt s) = pushes s @ ps"
proof -
  have "filter (\<lambda>c. completion (snd c) \<noteq> None)
          (sort_key fst (filter (\<lambda>c. fst c \<le> now s + dt) (callbacks s))) = [(T, a)]"
    by (simp only: filter_sort assms(1)) simp
  from run_actions_one [OF this assms(2)] show ?thesis
    by (simp add: tick_def run_due_def Let_def)
qed

text \<open>A pending transition stays pending until its completing call is due.\<close>

lemma pending_click:
  "pending s T a ps \<Longrightarrow> pending (onCanvasClick e event s) T a ps"
  by (simp add: pending_def onCanvasClick_transitioning in_flight_def)

lemma pending_animate:
  "pending s T a ps \<Longrightarrow> pending (animate d s) T a ps"
  by (simp add: pending_def animate_not_idle)

lemma pending_tick:
  assumes p: "pending s T a ps" and before: "now s + dt < T"
  shows "pending (tick dt s) T a ps"
proof -
  from p have fl: "in_flight s = [(T, a)]" and st: "currentState s = Transitioning"
    and ps: "pushes s = ps" and ca: "completion a \<noteq> None"
    and le: "list_all (\<lambda>c. fst c \<le> T) (callbacks s)"
    by (simp_all add: pending_def)
  have none: "\<forall>c\<in>set (callbacks s). fst c \<le> now s + dt \<longrightarrow> completion (snd c) = None"
  proof (intro ballI impI)
    fix c assume c: "c \<in> set (callbacks s)" and due: "fst c \<le> now s + dt"
    show "completion (snd c) = None"
    proof (rule ccontr)
      assume "completion (snd c) \<noteq> None"
      with c have "c \<in> set (in_flight s)" by (simp add: in_flight_def)
      with fl have "fst c = T" by simp
      with due before show False by simp
    qed
  qed
  have "in_flight (tick dt s) = filter (\<lambda>c. \<not> fst c \<le> now s + dt) (in_flight s)"
    by (simp add: in_flight_def tick_callbacks conj_commute)
  with fl before have "in_flight (tick dt s) = [(T, a)]" by simp
  moreover from le have "list_all (\<lambda>c. fst c \<le> T) (callbacks (tick dt s))"
    by (simp add: tick_callbacks list_all_iff)
  ultimately show ?thesis
    using tick_no_completion [OF none] st ps ca before
    by (simp add: pending_def)
qed

lemma pending_step:
  assumes "pending s T a ps" and "now s + elapsed [ev] < T"
  shows "pending (step s ev) T a ps"
proof (cases ev)
  case (Click e mev)
  with assms show ?thesis by (simp add: step_cases pending_click)
next
  case (TouchStart e tev)
  with assms show ?thesis by (simp add: step_cases pending_click split: list.split)
next
  case (Tick dt)
  with assms show ?thesis by (simp add: step_cases pending_tick)
next
  case (Frame d)
  with assms show ?thesis by (simp add: step_cases pending_animate)
qed

lemma pending_run:
  assumes "pending s T a ps" and "list_all valid_event evs" and "now s + elapsed evs < T"
  shows "pending (run evs s) T a ps"
  using assms
proof (induction evs arbitrary: s)
  case Nil
  then show ?case by simp
next
  case (Cons ev evs)
  from Cons.prems(2) have v: "list_all valid_event evs" and v1: "list_all valid_event [ev]"
    by simp_all
  from Cons.prems(3) elapsed_nonneg [OF v] have "now s + elapsed [ev] < T"
    by (simp add: elapsed_Cons [of ev evs])
  from pending_step [OF Cons.prems(1) this] have p: "pending (step s ev) T a ps" .
  from Cons.prems(3) have "now (step s ev) + elapsed evs < T"
    by (simp add: now_step elapsed_Cons [of ev evs])
  from Cons.IH [OF p v this] show ?case by simp
qed

lemma pending_complete:
  assumes p: "pending s T a ps" and due: "T \<le> now s + dt"
    and ca: "completion a = Some (st, pp)"
  shows "currentState (tick dt s) = st \<and> pushes (tick dt s) = ps @ pp \<and>
         callbacks (tick dt s) = []"
proof -
  from p have fl: "in_flight s = [(T, a)]" and ps: "pushes s = ps"
    and le: "list_all (\<lambda>c. fst c \<le> T) (callbacks s)"
    by (simp_all add: pending_def)
  from le due have all: "\<forall>c\<in>set (callbacks s). fst c \<le> now s + dt"
    by (auto simp add: list_all_iff)
  then have "filter (\<lambda>c. fst c \<le> now s + dt) (callbacks s) = callbacks s"
    by simp
  with fl have "filter (\<lambda>c. completion (snd c) \<noteq> None)
             (filter (\<lambda>c. fst c \<le> now s + dt) (callbacks s)) = [(T, a)]"
    by (simp add: in_flight_def)
  from tick_one_completion [OF this ca] ps all show ?thesis
    by (simp add: tick_callbacks)
qed

text \<open>The objects that init allocates, at their addresses.\<close>

lemma createEdge_eq:
  "createEdge ori (cx, cy, cz) h =
     (\<lparr>position = Suc (length h), rotation = Suc (Suc (length h)), material = length h,
       isEdge = True\<rparr>,
      h @ [Material edgeColor 1, Vec cx cy cz, Vec 0 0 0])"
  by (simp add: createEdge_def alloc_def list_update_append)

lemma addFace_eq:
  "addFace nm color (px, py, pz) (rx, ry, rz) (nx, ny, nz) (mx, my, mz) s =
     s\<lparr>faces := faces s @
         [\<lparr>name = nm, label = map_of faceMappings nm,
           mesh = \<lparr>position = length (heap s) + 1, rotation = length (heap s) + 2,
                   material = length (heap s), isEdge = False\<rparr>,
           cubePosition = length (heap s) + 3, cubeRotation = length (heap s) + 4,
           netPosition = length (heap s) + 5, netRotation = length (heap s) + 6,
           menuPosition = length (heap s) + 7, menuRotation = length (heap s) + 8\<rparr>],
       heap := heap s @
         [Material color 1, Vec px py pz, Vec rx ry rz, Vec px py pz, Vec rx ry rz,
          Vec nx ny nz, Vec 0 0 0, Vec mx my mz, Vec 0 0 0]\<rparr>"
  by (simp add: addFace_def createFace_def alloc_def clone_def list_update_append nth_append)

lemma mounted_frame:
  "currentState mounted = Idle"
  "callbacks mounted = []"
  "tweens mounted = []"
  "pushes mounted = []"
  "now mounted = 0"
  "cubeGroup mounted = \<lparr>g_rotation = 0, g_position = 1, g_scale = 2\<rparr>"
  by (simp_all add: mounted_def init_def script_setup_def createEdge_eq addFace_eq alloc_def
      edgesData_def)

lemma mounted_faces:
  "faces mounted =
     [\<lparr>name = ''front'', label = Some ''Web'',
        mesh = \<lparr>position = 40, rotation = 41, material = 39, isEdge = False\<rparr>,
        cubePosition = 42, cubeRotation = 43, netPosition = 44, netRotation = 45,
        menuPosition = 46, menuRotation = 47\<rparr>,
      \<lparr>name = ''right'', label = Some ''3D'',
        mesh = \<lparr>position = 49, rotation = 50, material = 48, isEdge = False\<rparr>,
        cubePosition = 51, cubeRotation = 52, netPosition = 53, netRotation = 54,
        menuPosition = 55, menuRotation = 56\<rparr>,
      \<lparr>name = ''left'', label = Some ''Fullstack'',
        mesh = \<lparr>position = 58, rotation = 59, material = 57, isEdge = False\<rparr>,
        cubePosition = 60, cubeRotation = 61, netPosition = 62, netRotation = 63,
        menuPosition = 64, menuRotation = 65\<rparr>,
      \<lparr>name = ''top'', label = Some ''About'',
        mesh = \<lparr>position = 67, rotation = 68, material = 66, isEdge = False\<rparr>,
        cubePosition = 69, cubeRotation = 70, netPosition = 71, netRotation = 72,
        menuPosition = 73, menuRotation = 74\<rparr>,
      \<lparr>name = ''bottom'', label = Some ''Projects'',
        mesh = \<lparr>position = 76, rotation = 77, material = 75, isEdge = False\<rparr>,
        cubePosition = 78, cubeRotation = 79, netPosition = 80, netRotation = 81,
        menuPosition = 82, menuRotation = 83\<rparr>,
      \<lparr>name = ''back'', label = Some ''Contact'',
        mesh = \<lparr>position = 85, rotation = 86, material = 84, isEdge = False\<rparr>,
        cubePosition = 87, cubeRotation = 88, netPosition = 89, netRotation = 90,
        menuPosition = 91, menuRotation = 92\<rparr>]"
  by (simp add: mounted_def init_def script_setup_def createEdge_eq addFace_eq alloc_def
      edgesData_def faceMappings_def cubeSize_def)

lemma mounted_edgeGroup:
  "edgeGroup mounted =
     [\<lparr>position = 4, rotation = 5, material = 3, isEdge = True\<rparr>,
      \<lparr>position = 7, rotation = 8, material = 6, isEdge = True\<rparr>,
      \<lparr>position = 10, rotation = 11, material = 9, isEdge = True\<rparr>,
      \<lparr>position = 13, rotation = 14, material = 12, isEdge = True\<rparr>,
      \<lparr>position = 16, rotation = 17, material = 15, isEdge = True\<rparr>,
      \<lparr>position = 19, rotation = 20, material = 18, isEdge = True\<rparr>,
      \<lparr>position = 22, rotation = 23, material = 21, isEdge = True\<rparr>,
      \<lparr>position = 25, rotation = 26, material = 24, isEdge = True\<rparr>,
      \<lparr>position = 28, rotation = 29, material = 27, isEdge = True\<rparr>,
      \<lparr>position = 31, rotation = 32, material = 30, isEdge = True\<rparr>,
      \<lparr>position = 34, rotation = 35, material = 33, isEdge = True\<rparr>,
      \<lparr>position = 37, rotation = 38, material = 36, isEdge = True\<rparr>]"
  by (simp add: mounted_def init_def script_setup_def createEdge_eq addFace_eq alloc_def
      edgesData_def faceMappings_def cubeSize_def)

lemma mounted_heap:
  "heap mounted =
     [Vec (- arctan (sqrt 2)) (pi / 4) 0,
      Vec 0 0 0,
      Vec 1 1 1,
      Material edgeColor 1,
      Vec (0) (- 0.5) (- 0.5),
      Vec 0 0 0,
      Material edgeColor 1,
      Vec (0) (0.5) (- 0.5),
      Vec 0 0 0,
      Material edgeColor 1,
      Vec (0) (- 0.5) (0.5),
      Vec 0 0 0,
      Material edgeColor 1,
      Vec (0) (0.5) (0.5),
      Vec 0 0 0,
      Material edgeColor 1,
      Vec (0.5) (0) (- 0.5),
      Vec 0 0 0,
      Material edgeColor 1,
      Vec (- 0.5) (0) (- 0.5),
      Vec 0 0 0,
      Material edgeColor 1,
      Vec (0.5) (0) (0.5),
      Vec 0 0 0,
      Material edgeColor 1,
      Vec (- 0.5) (0) (0.5),
      Vec 0 0 0,
      Material edgeColor 1,
      Vec (- 0.5) (- 0.5) (0),
      Vec 0 0 0,
      Material edgeColor 1,
      Vec (0.5) (- 0.5) (0),
      Vec 0 0 0,
      Material edgeColor 1,
      Vec (0.5) (0.5) (0),
      Vec 0 0 0,
      Material edgeColor 1,
      Vec (- 0.5) (0.5) (0),
      Vec 0 0 0,
      Material 0xff6b6b 1,
      Vec (0) (0) (0.5),
      Vec (0) (0) (0),
      Vec (0) (0) (0.5),
      Vec (0) (0) (0),
      Vec (- 0.5) (0) (0),
      Vec 0 0 0,
      Vec (0) (1.5) (0),
      Vec 0 0 0,
      Material 0x6bc1ff 1,
      Vec (0.5) (0) (0),
      Vec (0) (pi / 2) (0),
      Vec (0.5) (0) (0),
      Vec (0) (pi / 2) (0),
      Vec (0.5) (0) (0),
      Vec 0 0 0,
      Vec (0) (- 0.5) (0),
      Vec 0 0 0,
      Material 0x6bff95 1,
      Vec (- 0.5) (0) (0),
      Vec (0) (- pi / 2) (0),
      Vec (- 0.5) (0) (0),
      Vec (0) (- pi / 2) (0),
      Vec (- 1.5) (0) (0),
      Vec 0 0 0,
      Vec (0) (0.5) (0),
      Vec 0 0 0,
      Material 0xfff56b 1,
      Vec (0) (0.5) (0),
      Vec (- pi / 2) (0) (0),
      Vec (0) (0.5) (0),
      Vec (- pi / 2) (0) (0),
      Vec (- 0.5) (1) (0),
      Vec 0 0 0,
      Vec (0) (2.5) (0),
      Vec 0 0 0,
      Material 0xb66bff 1,
      Vec (0) (- 0.5) (0),
      Vec (pi / 2) (0) (0),
      Vec (0) (- 0.5) (0),
      Vec (pi / 2) (0) (0),
      Vec (- 0.5) (- 1) (0),
      Vec 0 0 0,
      Vec (0) (- 1.5) (0),
      Vec 0 0 0,
      Material 0xff9d6b 1,
      Vec (0) (0) (- 0.5),
      Vec (0) (pi) (0),
      Vec (0) (0) (- 0.5),
      Vec (0) (pi) (0),
      Vec (1.5) (0) (0),
      Vec 0 0 0,
      Vec (0) (- 2.5) (0),
      Vec 0 0 0]"
  by (simp add: mounted_def init_def script_setup_def createEdge_eq addFace_eq alloc_def
      edgesData_def faceMappings_def cubeSize_def)

text \<open>Each transition starts as a pending one.\<close>

lemma unfold_pending:
  assumes "callbacks s = []"
  shows "pending (unfoldCubeNet s) (now s + 1) SetNet (pushes s)"
  using assms by (simp add: pending_def unfoldCubeNet_eq in_flight_def)

lemma menu_pending:
  assumes "currentState s = Net \<or> currentState s = Menu" and "callbacks s = []"
  shows "pending (transitionToMenuAndNavigate face s) (now s + 1.7) (MenuNavigate face) (pushes s)"
  using assms
  by (simp add: pending_def transitionToMenuAndNavigate_eq in_flight_def)

lemma flight_inv_pending:
  "flight_inv s \<Longrightarrow> currentState s = Transitioning \<Longrightarrow>
   \<exists>T a. pending s T a (pushes s)"
proof -
  assume inv: "flight_inv s" and st: "currentState s = Transitioning"
  then obtain T a where fl: "in_flight s = [(T, a)]" and rest: "now s < T"
      "list_all (\<lambda>c. fst c \<le> T) (callbacks s)"
    by (auto simp add: flight_inv_def split: list.splits)
  from fl have "(T, a) \<in> set (in_flight s)" by simp
  then have "completion a \<noteq> None" by (simp add: in_flight_def)
  with fl rest st have "pending s T a (pushes s)" by (simp add: pending_def)
  then show ?thesis by blast
qed

lemma pending_flight_inv: "pending s T a ps \<Longrightarrow> flight_inv s"
  by (simp add: pending_def flight_inv_def)

lemma flight_inv_quiet:
  "currentState s \<noteq> Transitioning \<Longrightarrow> flight_inv s = (callbacks s = [])"
  by (simp add: flight_inv_def)

lemma flight_inv_cong:
  "currentState s' = currentState s \<Longrightarrow> callbacks s' = callbacks s \<Longrightarrow> now s' = now s \<Longrightarrow>
   flight_inv s' = flight_inv s"
  by (simp add: flight_inv_def in_flight_def cong: list.case_cong)

lemma flight_inv_click:
  assumes "flight_inv s"
  shows "flight_inv (onCanvasClick e event s)"
proof (cases "currentState s = Transitioning")
  case True
  then have "flight_inv (onCanvasClick e event s) = flight_inv s"
    by (intro flight_inv_cong) (simp_all add: onCanvasClick_transitioning)
  with assms show ?thesis by simp
next
  case False
  with assms have q: "callbacks s = []" by (simp add: flight_inv_quiet)
  let ?s1 = "s\<lparr>mouse := pointer_ndc e event\<rparr>"
  have q1: "callbacks ?s1 = []" using q by simp
  have quiet: "flight_inv ?s1" using False q by (simp add: flight_inv_def)
  have u: "flight_inv (unfoldCubeNet ?s1)"
    by (rule pending_flight_inv, rule unfold_pending, rule q1)
  have m: "flight_inv (transitionToMenuAndNavigate face ?s1)" for face
  proof (cases "currentState s = Net \<or> currentState s = Menu")
    case True
    then have "currentState ?s1 = Net \<or> currentState ?s1 = Menu" by simp
    from menu_pending [OF this q1] show ?thesis by (rule pending_flight_inv)
  next
    case False
    then show ?thesis using quiet by (simp add: transitionToMenuAndNavigate_guard)
  qed
  show ?thesis
    using quiet u m
    by (simp add: onCanvasClick_pick Let_def split: list.split option.split)
qed

lemma flight_inv_tick:
  assumes "flight_inv s"
  shows "flight_inv (tick dt s)"
proof (cases "currentState s = Transitioning")
  case True
  from flight_inv_pending [OF assms True] obtain T a where p: "pending s T a (pushes s)"
    by blast
  show ?thesis
  proof (cases "now s + dt < T")
    case True
    from pending_tick [OF p True] show ?thesis by (rule pending_flight_inv)
  next
    case False
    then have due: "T \<le> now s + dt" by simp
    from p obtain st pp where ca: "completion a = Some (st, pp)"
      by (auto simp add: pending_def)
    then have "st \<noteq> Transitioning" by (cases a) auto
    with pending_complete [OF p due ca] show ?thesis
      by (simp add: flight_inv_def)
  qed
next
  case False
  with assms have q: "callbacks s = []" by (simp add: flight_inv_quiet)
  then have "currentState (tick dt s) = currentState s"
    using tick_no_completion [of s dt] by simp
  with False q show ?thesis by (simp add: flight_inv_def tick_callbacks)
qed

lemma flight_inv_animate: "flight_inv s \<Longrightarrow> flight_inv (animate d s)"
proof -
  have "flight_inv (animate d s) = flight_inv s"
    by (intro flight_inv_cong) simp_all
  then show "flight_inv s \<Longrightarrow> flight_inv (animate d s)" by simp
qed

lemma flight_inv_step: "flight_inv s \<Longrightarrow> flight_inv (step s ev)"
  by (cases ev)
    (simp_all add: step_cases flight_inv_click flight_inv_tick flight_inv_animate
      split: list.split)

lemma flight_inv_run: "flight_inv s \<Longrightarrow> flight_inv (run evs s)"
  by (induction evs arbitrary: s) (simp_all add: flight_inv_step)

lemma flight_inv_mounted: "flight_inv mounted"
  by (simp add: flight_inv_def mounted_frame)

lemma reachable_quiet:
  "currentState (run evs mounted) \<noteq> Transitioning \<Longrightarrow> callbacks (run evs mounted) = []"
  using flight_inv_run [OF flight_inv_mounted, of evs] by (simp add: flight_inv_quiet)

text \<open>A hit on a face starts the transition of the current state.\<close>

lemma idle_hit_pending:
  assumes "currentState s = Idle" and "callbacks s = []"
    and "pick e event = m # rest" and "\<not> isEdge m"
  shows "onCanvasClick e event s = unfoldCubeNet (s\<lparr>mouse := pointer_ndc e event\<rparr>)"
    and "pending (onCanvasClick e event s) (now s + 1) SetNet (pushes s)"
proof -
  show eq: "onCanvasClick e event s = unfoldCubeNet (s\<lparr>mouse := pointer_ndc e event\<rparr>)"
    using assms by (simp add: onCanvasClick_pick)
  have "callbacks (s\<lparr>mouse := pointer_ndc e event\<rparr>) = []" using assms(2) by simp
  from unfold_pending [OF this] show "pending (onCanvasClick e event s) (now s + 1) SetNet (pushes s)"
    by (simp add: eq)
qed

lemma menu_hit_pending:
  assumes "currentState s = Net \<or> currentState s = Menu" and "callbacks s = []"
    and "pick e event = m # rest" and "\<not> isEdge m"
    and "find (\<lambda>f. mesh f = m) (faces s) = Some face"
  shows "onCanvasClick e event s =
           transitionToMenuAndNavigate face (s\<lparr>mouse := pointer_ndc e event\<rparr>)"
    and "pending (onCanvasClick e event s) (now s + 1.7) (MenuNavigate face) (pushes s)"
proof -
  show eq: "onCanvasClick e event s =
           transitionToMenuAndNavigate face (s\<lparr>mouse := pointer_ndc e event\<rparr>)"
    using assms by (auto simp add: onCanvasClick_pick)
  have "currentState (s\<lparr>mouse := pointer_ndc e event\<rparr>) = Net
      \<or> currentState (s\<lparr>mouse := pointer_ndc e event\<rparr>) = Menu"
    and "callbacks (s\<lparr>mouse := pointer_ndc e event\<rparr>) = []"
    using assms(1,2) by simp_all
  from menu_pending [OF this, of face]
  show "pending (onCanvasClick e event s) (now s + 1.7) (MenuNavigate face) (pushes s)"
    by (simp add: eq)
qed

text \<open>A pending transition over a run: nothing before the completing call is due, the
  new state and the pushed paths at the first update of the clock that reaches it.\<close>

lemma pending_before:
  assumes "pending s T a ps" and "list_all valid_event evs" and "now s + elapsed evs < T"
  shows "currentState (run evs s) = Transitioning \<and> pushes (run evs s) = ps"
  using pending_run [OF assms] by (simp add: pending_def)

lemma pending_at:
  assumes p: "pending s T a ps" and v: "list_all valid_event evs"
    and before: "now s + elapsed evs < T" and due: "T \<le> now s + elapsed evs + dt"
    and ca: "completion a = Some (st, pp)"
  shows "currentState (run (evs @ [Tick dt]) s) = st \<and>
         pushes (run (evs @ [Tick dt]) s) = ps @ pp \<and>
         callbacks (run (evs @ [Tick dt]) s) = []"
proof -
  from pending_run [OF p v before] have p': "pending (run evs s) T a ps" .
  from due have "T \<le> now (run evs s) + dt" by (simp add: now_run)
  from pending_complete [OF p' this ca] show ?thesis
    by (simp add: run_append step_cases)
qed

text \<open>The six faces of the mounted component.\<close>

lemma mounted_faces_all:
  "list_all (\<lambda>face. find (\<lambda>f. mesh f = mesh face) (faces mounted) = Some face
       \<and> \<not> isEdge (mesh face)
       \<and> map_of route_table (name face) = Some (routePath (name face)))
     (faces mounted)"
  by (simp add: mounted_faces route_table_def routePath_def)

lemma mounted_face_facts:
  assumes "face \<in> set (faces mounted)"
  shows "find (\<lambda>f. mesh f = mesh face) (faces mounted) = Some face"
    and "\<not> isEdge (mesh face)"
    and "map_of route_table (name face) = Some (routePath (name face))"
  using assms mounted_faces_all unfolding list_all_iff by blast+

lemma route_table_one_to_one:
  "distinct (map fst route_table) \<and> distinct (map snd route_table)"
  by (simp add: route_table_def)

text \<open>The scenes.\<close>

lemma pick_scenes:
  "pick env_front click0 = [mesh (faces mounted ! 0)]"
  "pick env_back click0 = [mesh (faces mounted ! 5)]"
  "pick env_none click0 = []"
  "pick env_edge click0 = [edgeGroup mounted ! 0]"
  "pick env_edge_front click0 = [edgeGroup mounted ! 0, mesh (faces mounted ! 0)]"
  by (simp_all add: pick_def env_front_def env_back_def env_none_def env_edge_def
      env_edge_front_def mounted_faces mounted_edgeGroup)

lemma scene_meshes:
  "\<not> isEdge (mesh (faces mounted ! 0))"
  "\<not> isEdge (mesh (faces mounted ! 5))"
  "isEdge (edgeGroup mounted ! 0)"
  "faces mounted ! 0 \<in> set (faces mounted)"
  "faces mounted ! 5 \<in> set (faces mounted)"
  "name (faces mounted ! 0) = ''front''"
  "name (faces mounted ! 5) = ''back''"
  by (simp_all add: mounted_faces mounted_edgeGroup)

text \<open>The run that unfolds the cube: a click on the front face, then one second.\<close>

lemma net_reached:
  "currentState (run [Click env_front click0, Tick 1] mounted) = Net"
  "pushes (run [Click env_front click0, Tick 1] mounted) = []"
  "callbacks (run [Click env_front click0, Tick 1] mounted) = []"
  "now (run [Click env_front click0, Tick 1] mounted) = 1"
proof -
  have p: "pending (onCanvasClick env_front click0 mounted) (now mounted + 1) SetNet (pushes mounted)"
    by (rule idle_hit_pending(2) [where m = "mesh (faces mounted ! 0)" and rest = "[]"])
      (simp_all add: mounted_frame pick_scenes scene_meshes)
  have "currentState (run ([] @ [Tick 1]) (onCanvasClick env_front click0 mounted)) = Net \<and>
         pushes (run ([] @ [Tick 1]) (onCanvasClick env_front click0 mounted)) = pushes mounted @ [] \<and>
         callbacks (run ([] @ [Tick 1]) (onCanvasClick env_front click0 mounted)) = []"
    by (rule pending_at [OF p]) (simp_all add: mounted_frame)
  then show "currentState (run [Click env_front click0, Tick 1] mounted) = Net"
    "pushes (run [Click env_front click0, Tick 1] mounted) = []"
    "callbacks (run [Click env_front click0, Tick 1] mounted) = []"
    by (simp_all add: step_cases mounted_frame)
  show "now (run [Click env_front click0, Tick 1] mounted) = 1"
    by (simp add: now_step mounted_frame)
qed

lemma in_flight_reachable:
  "length (in_flight (run evs mounted)) =
     (if currentState (run evs mounted) = Transitioning then 1 else 0)"
proof -
  have inv: "flight_inv (run evs mounted)"
    by (rule flight_inv_run [OF flight_inv_mounted])
  show ?thesis
  proof (cases "currentState (run evs mounted) = Transitioning")
    case True
    from flight_inv_pending [OF inv True] show ?thesis
      using True by (auto simp add: pending_def)
  next
    case False
    with inv show ?thesis by (simp add: flight_inv_quiet in_flight_def)
  qed
qed

lemma pointer_transitioning:
  assumes "is_pointer ev" and "currentState s = Transitioning"
  shows "step s ev = s\<lparr>mouse := mouse (step s ev)\<rparr>"
proof (cases ev)
  case (Click e mev)
  with assms(2) show ?thesis by (simp add: step_cases onCanvasClick_transitioning)
next
  case (TouchStart e tev)
  with assms(2) show ?thesis
    by (cases "touches tev") (simp_all add: step_cases onCanvasClick_transitioning)
next
  case (Tick dt)
  with assms(1) show ?thesis by simp
next
  case (Frame d)
  with assms(1) show ?thesis by simp
qed

lemma transitioning_reached:
  "currentState (run [Click env_front click0] mounted) = Transitioning"
proof -
  have "pending (onCanvasClick env_front click0 mounted) (now mounted + 1) SetNet (pushes mounted)"
    by (rule idle_hit_pending(2) [where m = "mesh (faces mounted ! 0)" and rest = "[]"])
      (simp_all add: mounted_frame pick_scenes scene_meshes)
  then show ?thesis by (simp add: pending_def step_cases)
qed

lemma dispatch_pointer:
  "pointer_at ev = Some (e, event) \<Longrightarrow> dispatch ev s = Inr (onCanvasClick e event s)"
  by (cases ev) (auto simp add: onCanvasTouch_def touch_point_def split: list.splits)

lemma onCanvasClick_noop:
  assumes "case pick e event of [] \<Rightarrow> True | m # rest \<Rightarrow> isEdge m"
  shows "onCanvasClick e event s = s\<lparr>mouse := pointer_ndc e event\<rparr>"
proof (cases "pick e event")
  case Nil
  then show ?thesis by (simp add: onCanvasClick_pick)
next
  case (Cons m rest)
  with assms show ?thesis by (simp add: onCanvasClick_pick)
qed

lemma foldl_invariant:
  "P s \<Longrightarrow> (\<And>s x. P s \<Longrightarrow> P (g s x)) \<Longrightarrow> P (foldl g s xs)"
  by (induction xs arbitrary: s) simp_all

lemma routePath_routes: "routePath nm \<in> set (map path routes)"
  by (simp add: routePath_def routes_def)

lemma run_action_pushes_routes:
  "set (pushes s) \<subseteq> set (map path routes) \<Longrightarrow>
   set (pushes (run_action a s)) \<subseteq> set (map path routes)"
  using routePath_routes by (cases a) (simp_all add: setEdgeOpacity_eq router_push_def)

lemma tick_pushes_routes:
  assumes "set (pushes s) \<subseteq> set (map path routes)"
  shows "set (pushes (tick dt s)) \<subseteq> set (map path routes)"
proof -
  have "set (pushes (run_due (s\<lparr>now := now s + dt\<rparr>))) \<subseteq> set (map path routes)"
    unfolding run_due_def Let_def
  proof (rule foldl_invariant [where P = "\<lambda>s. set (pushes s) \<subseteq> set (map path routes)"])
    show "set (pushes (s\<lparr>now := now s + dt,
        callbacks := filter (\<lambda>c. \<not> fst c \<le> now (s\<lparr>now := now s + dt\<rparr>))
          (callbacks (s\<lparr>now := now s + dt\<rparr>))\<rparr>)) \<subseteq> set (map path routes)"
      using assms by simp
  next
    fix s' :: state and c :: "real \<times> action"
    assume "set (pushes s') \<subseteq> set (map path routes)"
    then show "set (pushes (run_action (snd c) s')) \<subseteq> set (map path routes)"
      by (rule run_action_pushes_routes)
  qed
  then show ?thesis by (simp add: tick_def)
qed

lemma step_pushes_routes:
  "set (pushes s) \<subseteq> set (map path routes) \<Longrightarrow>
   set (pushes (step s ev)) \<subseteq> set (map path routes)"
proof (cases ev)
  case (Tick dt)
  assume "set (pushes s) \<subseteq> set (map path routes)"
  from tick_pushes_routes [OF this] Tick show ?thesis by (simp add: step_cases)
qed (simp_all add: step_cases split: list.split)

lemma run_pushes_routes:
  "set (pushes s) \<subseteq> set (map path routes) \<Longrightarrow>
   set (pushes (run evs s)) \<subseteq> set (map path routes)"
proof (induction evs arbitrary: s)
  case Nil
  then show ?case by simp
next
  case (Cons ev evs)
  from Cons.IH [OF step_pushes_routes [OF Cons.prems]] show ?case by simp
qed

text \<open>While the clock runs forwards, no call is due later than 1.7 seconds from now.\<close>

lemma deadline_click: "deadline_inv s \<Longrightarrow> deadline_inv (onCanvasClick e event s)"
  by (auto simp add: deadline_inv_def onCanvasClick_pick Let_def unfoldCubeNet_eq
      transitionToMenuAndNavigate_eq split: list.split option.split)

lemma deadline_tick: "deadline_inv s \<Longrightarrow> 0 \<le> dt \<Longrightarrow> deadline_inv (tick dt s)"
  by (auto simp add: deadline_inv_def tick_callbacks list_all_iff)

lemma deadline_step: "deadline_inv s \<Longrightarrow> valid_event ev \<Longrightarrow> deadline_inv (step s ev)"
  by (cases ev)
    (simp_all add: step_cases deadline_click deadline_tick split: list.split,
     simp add: deadline_inv_def)

lemma deadline_run:
  "deadline_inv s \<Longrightarrow> list_all valid_event evs \<Longrightarrow> deadline_inv (run evs s)"
  by (induction evs arbitrary: s) (simp_all add: deadline_step)

lemma deadline_mounted: "deadline_inv mounted"
  by (simp add: deadline_inv_def mounted_frame)

lemma transitioning_ends:
  assumes v: "list_all valid_event evs"
    and st: "currentState (run evs mounted) = Transitioning" and dt: "1.7 \<le> dt"
  shows "currentState (tick dt (run evs mounted)) = Net
       \<or> currentState (tick dt (run evs mounted)) = Menu"
proof -
  let ?s = "run evs mounted"
  have "flight_inv ?s" by (rule flight_inv_run [OF flight_inv_mounted])
  from flight_inv_pending [OF this st] obtain T a where p: "pending ?s T a (pushes ?s)"
    by blast
  then have "in_flight ?s = [(T, a)]" by (simp add: pending_def)
  then have "(T, a) \<in> set (in_flight ?s)" by simp
  then have "(T, a) \<in> set (callbacks ?s)" by (simp add: in_flight_def)
  moreover have "deadline_inv ?s" by (rule deadline_run [OF deadline_mounted v])
  ultimately have "T \<le> now ?s + 1.7" by (auto simp add: deadline_inv_def list_all_iff)
  with dt have due: "T \<le> now ?s + dt" by simp
  from p obtain st' pp where ca: "completion a = Some (st', pp)"
    by (auto simp add: pending_def)
  then have "st' = Net \<or> st' = Menu" by (cases a) auto
  with pending_complete [OF p due ca] show ?thesis by simp
qed

text \<open>Tweens and the render loop write at the mutable addresses only.\<close>

lemma targets_ok_append [simp]:
  "targets_ok M (xs @ ys) \<longleftrightarrow> targets_ok M xs \<and> targets_ok M ys"
  by (simp add: targets_ok_def)

lemma targets_ok_sort [simp]: "targets_ok M (sort_key f tws) = targets_ok M tws"
  by (simp add: targets_ok_def list_all_iff)

lemma write_tween_other:
  assumes "case tw_target tw of None \<Rightarrow> True | Some a \<Rightarrow> a \<in> M" and "b \<notin> M"
  shows "write_tween t tw h ! b = h ! b"
proof (cases "tw_target tw")
  case None
  then show ?thesis by (simp add: write_tween_def)
next
  case (Some a)
  with assms have "a \<noteq> b" by auto
  with Some show ?thesis by (simp add: write_tween_def)
qed

lemma render_all_targets:
  "targets_ok M tws \<Longrightarrow> targets_ok M (fst (render_all t tws h))"
proof (induction tws arbitrary: h)
  case Nil
  show ?case by (simp add: targets_ok_def)
next
  case (Cons tw tws)
  from Cons.prems have tw: "case tw_target tw of None \<Rightarrow> True | Some a \<Rightarrow> a \<in> M"
    and rest: "targets_ok M tws"
    by (simp_all add: targets_ok_def)
  from Cons.IH [OF rest] have "list_all (\<lambda>tw. case tw_target tw of None \<Rightarrow> True | Some a \<Rightarrow> a \<in> M)
      (fst (render_all t tws h'))" for h'
    by (simp add: targets_ok_def)
  with tw show ?case
    by (simp add: targets_ok_def Let_def case_prod_unfold)
qed

lemma render_all_heap:
  assumes "b \<notin> M"
  shows "targets_ok M tws \<Longrightarrow> snd (render_all t tws h) ! b = h ! b"
proof (induction tws arbitrary: h)
  case Nil
  show ?case by simp
next
  case (Cons tw tws)
  from Cons.prems have tw: "case tw_target tw of None \<Rightarrow> True | Some a \<Rightarrow> a \<in> M"
    and rest: "targets_ok M tws"
    by (simp_all add: targets_ok_def)
  note w = write_tween_other [OF tw assms]
  from Cons.IH [OF rest] w show ?case
    by (simp add: Let_def case_prod_unfold)
qed

lemma render_tweens_targets:
  "targets_ok M (tweens s) \<Longrightarrow> targets_ok M (tweens (render_tweens s))"
  using render_all_targets [of M "sort_key tw_start (tweens s)" "now s" "heap s"]
  by (simp add: render_tweens_def case_prod_unfold Let_def)

lemma render_tweens_heap:
  "targets_ok M (tweens s) \<Longrightarrow> b \<notin> M \<Longrightarrow> heap (render_tweens s) ! b = heap s ! b"
  using render_all_heap [of b M "sort_key tw_start (tweens s)" "now s" "heap s"]
  by (simp add: render_tweens_def case_prod_unfold Let_def)

lemma edge_tweens_ok:
  "material ` set es \<subseteq> M \<Longrightarrow> targets_ok M (map (edge_tween t v d) es)"
  by (auto simp add: targets_ok_def list_all_iff edge_tween_def)

lemma run_action_targets:
  assumes "targets_ok (mutable_addrs s) (tweens s)"
  shows "targets_ok (mutable_addrs s) (tweens (run_action a s))"
proof -
  have "material ` set (edgeGroup s) \<subseteq> mutable_addrs s"
    by (auto simp add: mutable_addrs_def)
  from edge_tweens_ok [OF this] assms show ?thesis
    by (cases a) (simp_all add: setEdgeOpacity_eq router_push_def)
qed

lemma mutable_addrs_cong:
  "faces s' = faces s \<Longrightarrow> cubeGroup s' = cubeGroup s \<Longrightarrow> edgeGroup s' = edgeGroup s \<Longrightarrow>
   mutable_addrs s' = mutable_addrs s"
  by (simp add: mutable_addrs_def)

lemma run_due_targets:
  assumes "targets_ok (mutable_addrs s) (tweens s)"
  shows "targets_ok (mutable_addrs s) (tweens (run_due s))"
proof -
  have "mutable_addrs (run_due s) = mutable_addrs s
      \<and> targets_ok (mutable_addrs (run_due s)) (tweens (run_due s))"
    unfolding run_due_def Let_def
  proof (rule foldl_invariant
      [where P = "\<lambda>s'. mutable_addrs s' = mutable_addrs s \<and> targets_ok (mutable_addrs s') (tweens s')"])
    show "mutable_addrs (s\<lparr>callbacks := filter (\<lambda>c. \<not> fst c \<le> now s) (callbacks s)\<rparr>)
          = mutable_addrs s
        \<and> targets_ok (mutable_addrs (s\<lparr>callbacks := filter (\<lambda>c. \<not> fst c \<le> now s) (callbacks s)\<rparr>))
            (tweens (s\<lparr>callbacks := filter (\<lambda>c. \<not> fst c \<le> now s) (callbacks s)\<rparr>))"
      using assms by (simp add: mutable_addrs_def)
  next
    fix s' :: state and c :: "real \<times> action"
    assume a: "mutable_addrs s' = mutable_addrs s \<and> targets_ok (mutable_addrs s') (tweens s')"
    then have eq: "mutable_addrs s' = mutable_addrs s"
      and ok: "targets_ok (mutable_addrs s') (tweens s')"
      by blast+
    have m': "mutable_addrs (run_action (snd c) s') = mutable_addrs s'"
      by (rule mutable_addrs_cong) simp_all
    from run_action_targets [OF ok]
    have "targets_ok (mutable_addrs s') (tweens (run_action (snd c) s'))" .
    then show "mutable_addrs (run_action (snd c) s') = mutable_addrs s
        \<and> targets_ok (mutable_addrs (run_action (snd c) s')) (tweens (run_action (snd c) s'))"
      by (simp only: m' eq simp_thms)
  qed
  then show ?thesis by metis
qed

lemma face_tweens_ok:
  "set fs \<subseteq> set (faces s) \<Longrightarrow>
   targets_ok (mutable_addrs s)
     (concat (map (\<lambda>face. [vec_tween t d (position (mesh face)) (p face),
                            vec_tween t' d' (rotation (mesh face)) (r face)]) fs))"
  by (induction fs) (auto simp add: targets_ok_def vec_tween_def mutable_addrs_def)

lemma unfold_tweens_ok: "targets_ok (mutable_addrs s) (unfold_tweens s)"
proof -
  have "material ` set (edgeGroup s) \<subseteq> mutable_addrs s"
    by (auto simp add: mutable_addrs_def)
  from edge_tweens_ok [OF this] face_tweens_ok [of "faces s" s] show ?thesis
    by (simp add: unfold_tweens_def) (simp add: targets_ok_def mutable_addrs_def)
qed

lemma face_children_ok:
  "set fs \<subseteq> set (faces s) \<Longrightarrow>
   targets_ok (mutable_addrs s)
     (concat (map (child_tweens t) (concat (map (\<lambda>face.
        [TlTo p1 (Some (position (mesh face))) (v1 face) d1 None,
         TlTo p2 (Some (rotation (mesh face))) (v2 face) d2 None]) fs))))"
  by (induction fs) (auto simp add: targets_ok_def mutable_addrs_def)

lemma menu_children_ok:
  "targets_ok (mutable_addrs s) (concat (map (child_tweens t) (menu_children face s)))"
  using face_children_ok [of "faces s" s]
  by (simp add: menu_children_def) (simp add: targets_ok_def mutable_addrs_def)

lemma onCanvasClick_targets:
  assumes "targets_ok (mutable_addrs s) (tweens s)"
  shows "targets_ok (mutable_addrs s) (tweens (onCanvasClick e event s))"
proof -
  let ?s1 = "s\<lparr>mouse := pointer_ndc e event\<rparr>"
  have m: "mutable_addrs ?s1 = mutable_addrs s" by (simp add: mutable_addrs_def)
  have t: "targets_ok (mutable_addrs s) (tweens ?s1)" using assms by simp
  have u: "targets_ok (mutable_addrs s) (tweens (unfoldCubeNet ?s1))"
    using t unfold_tweens_ok [of ?s1] by (simp add: unfoldCubeNet_eq m)
  have n: "targets_ok (mutable_addrs s) (tweens (transitionToMenuAndNavigate face ?s1))" for face
  proof (cases "currentState s = Net \<or> currentState s = Menu")
    case True
    then have "currentState ?s1 = Net \<or> currentState ?s1 = Menu" by simp
    from transitionToMenuAndNavigate_eq [OF this, of face] t
      menu_children_ok [of ?s1 "now s" face]
    show ?thesis by (simp add: m)
  next
    case False
    then show ?thesis using t by (simp add: transitionToMenuAndNavigate_guard)
  qed
  show ?thesis
    using t u n by (simp add: onCanvasClick_pick Let_def split: list.split option.split)
qed

lemma tick_targets:
  assumes "targets_ok (mutable_addrs s) (tweens s)"
  shows "targets_ok (mutable_addrs s) (tweens (tick dt s))"
proof -
  let ?s1 = "s\<lparr>now := now s + dt\<rparr>"
  have m: "mutable_addrs ?s1 = mutable_addrs s" by (simp add: mutable_addrs_def)
  from assms have "targets_ok (mutable_addrs ?s1) (tweens ?s1)" by (simp add: m)
  from run_due_targets [OF this] have "targets_ok (mutable_addrs s) (tweens (run_due ?s1))"
    by (simp only: m)
  from render_tweens_targets [OF this] show ?thesis by (simp add: tick_def)
qed

lemma tick_heap:
  assumes "targets_ok (mutable_addrs s) (tweens s)" and "b \<notin> mutable_addrs s"
  shows "heap (tick dt s) ! b = heap s ! b"
proof -
  let ?s1 = "s\<lparr>now := now s + dt\<rparr>"
  have m: "mutable_addrs ?s1 = mutable_addrs s" by (simp add: mutable_addrs_def)
  from assms(1) have "targets_ok (mutable_addrs ?s1) (tweens ?s1)" by (simp add: m)
  from run_due_targets [OF this] have "targets_ok (mutable_addrs s) (tweens (run_due ?s1))"
    by (simp only: m)
  from render_tweens_heap [OF this assms(2)] show ?thesis
    by (simp add: tick_def run_due_def Let_def)
qed

lemma animate_heap:
  assumes "b \<notin> mutable_addrs s"
  shows "heap (animate d s) ! b = heap s ! b"
proof -
  from assms have "b \<noteq> g_position (cubeGroup s)" and "b \<noteq> g_scale (cubeGroup s)"
    by (auto simp add: mutable_addrs_def)
  then show ?thesis by (simp add: animate_def Let_def)
qed

lemma step_targets:
  assumes "targets_ok (mutable_addrs s) (tweens s)"
  shows "targets_ok (mutable_addrs s) (tweens (step s ev))"
  using assms
  by (cases ev)
    (simp_all add: step_cases onCanvasClick_targets tick_targets split: list.split)

lemma step_heap:
  assumes "targets_ok (mutable_addrs s) (tweens s)" and "b \<notin> mutable_addrs s"
  shows "heap (step s ev) ! b = heap s ! b"
  using assms
  by (cases ev) (simp_all add: step_cases tick_heap animate_heap split: list.split)

lemma mutable_addrs_step [simp]: "mutable_addrs (step s ev) = mutable_addrs s"
  by (rule mutable_addrs_cong) simp_all

lemma run_heap:
  assumes "b \<notin> mutable_addrs s"
  shows "targets_ok (mutable_addrs s) (tweens s) \<Longrightarrow> heap (run evs s) ! b = heap s ! b"
  using assms
proof (induction evs arbitrary: s)
  case Nil
  show ?case by simp
next
  case (Cons ev evs)
  from step_targets [OF Cons.prems(1), of ev]
  have t: "targets_ok (mutable_addrs (step s ev)) (tweens (step s ev))" by simp
  from Cons.prems(2) have b: "b \<notin> mutable_addrs (step s ev)" by simp
  from Cons.IH [OF t b] step_heap [OF Cons.prems] show ?case by simp
qed

text \<open>In the mounted component no stored transform of the table is at a mutable address.\<close>

lemma mounted_mutable_addrs:
  "mutable_addrs mounted =
     {0, 1, 2} \<union> {3, 6, 9, 12, 15, 18, 21, 24, 27, 30, 33, 36}
     \<union> {40, 49, 58, 67, 76, 85} \<union> {41, 50, 59, 68, 77, 86}"
  by (simp add: mutable_addrs_def mounted_frame mounted_faces mounted_edgeGroup)

lemma mounted_table_addrs:
  "table_addrs mounted =
     [42, 43, 44, 45, 46, 47, 51, 52, 53, 54, 55, 56, 60, 61, 62, 63, 64, 65,
      69, 70, 71, 72, 73, 74, 78, 79, 80, 81, 82, 83, 87, 88, 89, 90, 91, 92]"
  by (simp add: table_addrs_def face_table_addrs_def mounted_faces)

lemma table_not_mutable_all:
  "list_all (\<lambda>b. b \<notin> mutable_addrs mounted) (table_addrs mounted)"
  unfolding mounted_mutable_addrs mounted_table_addrs by simp

lemma table_not_mutable: "b \<in> set (table_addrs mounted) \<Longrightarrow> b \<notin> mutable_addrs mounted"
  using table_not_mutable_all unfolding list_all_iff by blast

lemma table_kept:
  assumes "b \<in> set (table_addrs mounted)"
  shows "heap (run evs mounted) ! b = heap mounted ! b"
  by (rule run_heap [OF table_not_mutable [OF assms]])
    (simp add: targets_ok_def mounted_frame)

lemma layout_table_run: "layout_table (run evs mounted) = layout_table mounted"
proof -
  have "map (\<lambda>a. heap (run evs mounted) ! a) (face_table_addrs f)
      = map (\<lambda>a. heap mounted ! a) (face_table_addrs f)"
    if "f \<in> set (faces mounted)" for f
  proof (rule map_cong [OF refl])
    fix a assume "a \<in> set (face_table_addrs f)"
    with that have "a \<in> set (table_addrs mounted)" by (auto simp add: table_addrs_def)
    then show "heap (run evs mounted) ! a = heap mounted ! a" by (rule table_kept)
  qed
  then show ?thesis by (simp add: layout_table_def)
qed

lemma layout_table_mounted:
  "layout_table mounted =
     [(''front'', [Vec 0 0 0.5, Vec 0 0 0, Vec (-0.5) 0 0, Vec 0 0 0, Vec 0 1.5 0, Vec 0 0 0]),
      (''right'', [Vec 0.5 0 0, Vec 0 (pi / 2) 0, Vec 0.5 0 0, Vec 0 0 0, Vec 0 (-0.5) 0, Vec 0 0 0]),
      (''left'', [Vec (-0.5) 0 0, Vec 0 (- pi / 2) 0, Vec (-1.5) 0 0, Vec 0 0 0, Vec 0 0.5 0, Vec 0 0 0]),
      (''top'', [Vec 0 0.5 0, Vec (- pi / 2) 0 0, Vec (-0.5) 1 0, Vec 0 0 0, Vec 0 2.5 0, Vec 0 0 0]),
      (''bottom'', [Vec 0 (-0.5) 0, Vec (pi / 2) 0 0, Vec (-0.5) (-1) 0, Vec 0 0 0, Vec 0 (-1.5) 0, Vec 0 0 0]),
      (''back'', [Vec 0 0 (-0.5), Vec 0 pi 0, Vec 1.5 0 0, Vec 0 0 0, Vec 0 (-2.5) 0, Vec 0 0 0])]"
  by (simp add: layout_table_def face_table_addrs_def mounted_faces mounted_heap)

section \<open>The claims\<close>

text \<open>
  C1. In a Net or Menu state of any run of the mounted component, a pointer hit whose
  nearest mesh is the mesh of one of the six faces starts the menu transition. Whatever
  events follow while less than 1.7 seconds (the end of its timeline) have passed on the
  clock, the state is Transitioning and no path has been pushed; the first update of the
  clock that reaches 1.7 seconds sets the state to Menu and pushes exactly one path,
  the one that the navigation table of the specification gives for the name of the face.
  That table is one-to-one.
\<close>

theorem face_hit_navigates:
  assumes "currentState (run evs0 mounted) = Net \<or> currentState (run evs0 mounted) = Menu"
    and "pick e event = mesh face # rest" and "face \<in> set (faces mounted)"
    and "list_all valid_event evs" and "elapsed evs < 1.7" and "1.7 \<le> elapsed evs + dt"
  shows "currentState (run evs (onCanvasClick e event (run evs0 mounted))) = Transitioning
       \<and> pushes (run evs (onCanvasClick e event (run evs0 mounted))) = pushes (run evs0 mounted)
       \<and> currentState (run (evs @ [Tick dt]) (onCanvasClick e event (run evs0 mounted))) = Menu
       \<and> pushes (run (evs @ [Tick dt]) (onCanvasClick e event (run evs0 mounted)))
           = pushes (run evs0 mounted) @ [routePath (name face)]
       \<and> map_of route_table (name face) = Some (routePath (name face))
       \<and> distinct (map fst route_table) \<and> distinct (map snd route_table)"
proof -
  let ?s = "run evs0 mounted"
  let ?s1 = "onCanvasClick e event ?s"
  from assms(1) have q: "callbacks ?s = []" by (intro reachable_quiet) auto
  have f: "find (\<lambda>f. mesh f = mesh face) (faces ?s) = Some face"
    using mounted_face_facts(1) [OF assms(3)] by simp
  from menu_hit_pending(2) [OF assms(1) q assms(2) mounted_face_facts(2) [OF assms(3)] f]
  have p: "pending ?s1 (now ?s + 1.7) (MenuNavigate face) (pushes ?s)" .
  have "currentState (run evs ?s1) = Transitioning \<and> pushes (run evs ?s1) = pushes ?s"
    by (rule pending_before [OF p assms(4)]) (use assms(5) in simp)
  moreover have "currentState (run (evs @ [Tick dt]) ?s1) = Menu \<and>
         pushes (run (evs @ [Tick dt]) ?s1) = pushes ?s @ [routePath (name face)] \<and>
         callbacks (run (evs @ [Tick dt]) ?s1) = []"
    by (rule pending_at [OF p assms(4)]) (use assms(5,6) in simp_all)
  ultimately show ?thesis
    using mounted_face_facts(3) [OF assms(3)] route_table_one_to_one by simp
qed

theorem face_hit_navigates_witness:
  "(currentState (run [Click env_front click0, Tick 1] mounted) = Net
      \<or> currentState (run [Click env_front click0, Tick 1] mounted) = Menu)
   \<and> pick env_back click0 = mesh (faces mounted ! 5) # []
   \<and> faces mounted ! 5 \<in> set (faces mounted)
   \<and> list_all valid_event [Tick 1.2, Click env_front click0, Tick 0.4]
   \<and> elapsed [Tick 1.2, Click env_front click0, Tick 0.4] < 1.7
   \<and> 1.7 \<le> elapsed [Tick 1.2, Click env_front click0, Tick 0.4] + 0.1
   \<and> pushes (run [Tick 1.2, Click env_front click0, Tick 0.4]
        (onCanvasClick env_back click0 (run [Click env_front click0, Tick 1] mounted))) = []
   \<and> currentState (run ([Tick 1.2, Click env_front click0, Tick 0.4] @ [Tick 0.1])
        (onCanvasClick env_back click0 (run [Click env_front click0, Tick 1] mounted))) = Menu
   \<and> pushes (run ([Tick 1.2, Click env_front click0, Tick 0.4] @ [Tick 0.1])
        (onCanvasClick env_back click0 (run [Click env_front click0, Tick 1] mounted)))
       = [''/contact'']"
proof -
  have h: "currentState (run [Click env_front click0, Tick 1] mounted) = Net
      \<or> currentState (run [Click env_front click0, Tick 1] mounted) = Menu"
    "pick env_back click0 = mesh (faces mounted ! 5) # []"
    "faces mounted ! 5 \<in> set (faces mounted)"
    "list_all valid_event [Tick 1.2, Click env_front click0, Tick 0.4]"
    "elapsed [Tick 1.2, Click env_front click0, Tick 0.4] < 1.7"
    "1.7 \<le> elapsed [Tick 1.2, Click env_front click0, Tick 0.4] + 0.1"
    by (simp_all only: net_reached pick_scenes scene_meshes simp_thms) simp_all
  have r: "routePath (name (faces mounted ! 5)) = ''/contact''"
    by (simp add: scene_meshes routePath_def)
  from face_hit_navigates [OF h] h show ?thesis
    by (simp only: net_reached r append_Nil simp_thms)
qed

text \<open>
  C2. A click or a touch that arrives in a Transitioning state of any run changes nothing
  but the scratch vector \<open>mouse\<close>: the state stays Transitioning, and the tweens, the
  calls that gsap still has to make, the pushed paths and the store are as before.
  In every state of every run at most one completing call is waiting, and exactly one
  when the state is Transitioning.
\<close>

theorem transitioning_ignores_pointer:
  assumes "is_pointer ev" and "currentState (run evs mounted) = Transitioning"
  shows "currentState (step (run evs mounted) ev) = Transitioning
       \<and> tweens (step (run evs mounted) ev) = tweens (run evs mounted)
       \<and> callbacks (step (run evs mounted) ev) = callbacks (run evs mounted)
       \<and> pushes (step (run evs mounted) ev) = pushes (run evs mounted)
       \<and> heap (step (run evs mounted) ev) = heap (run evs mounted)
       \<and> length (in_flight (step (run evs mounted) ev)) = 1
       \<and> (\<forall>evs'. length (in_flight (run evs' mounted)) \<le> 1)"
proof -
  from pointer_transitioning [OF assms]
  obtain xy where eq: "step (run evs mounted) ev = (run evs mounted)\<lparr>mouse := xy\<rparr>"
    by blast
  have frame: "currentState (step (run evs mounted) ev) = Transitioning
       \<and> tweens (step (run evs mounted) ev) = tweens (run evs mounted)
       \<and> callbacks (step (run evs mounted) ev) = callbacks (run evs mounted)
       \<and> pushes (step (run evs mounted) ev) = pushes (run evs mounted)
       \<and> heap (step (run evs mounted) ev) = heap (run evs mounted)"
    using assms(2) by (simp add: eq)
  have "step (run evs mounted) ev = run (evs @ [ev]) mounted"
    by (simp add: run_append)
  with frame have "length (in_flight (step (run evs mounted) ev)) = 1"
    using in_flight_reachable [of "evs @ [ev]"] by simp
  moreover have "length (in_flight (run evs' mounted)) \<le> 1" for evs'
    by (simp add: in_flight_reachable)
  ultimately show ?thesis using frame by simp
qed

theorem transitioning_ignores_pointer_witness:
  "is_pointer (Click env_back click0)
   \<and> currentState (run [Click env_front click0] mounted) = Transitioning
   \<and> currentState (step (run [Click env_front click0] mounted) (Click env_back click0))
       = Transitioning
   \<and> callbacks (step (run [Click env_front click0] mounted) (Click env_back click0))
       = callbacks (run [Click env_front click0] mounted)
   \<and> length (in_flight (step (run [Click env_front click0] mounted) (Click env_back click0))) = 1"
proof -
  have h: "is_pointer (Click env_back click0)"
    "currentState (run [Click env_front click0] mounted) = Transitioning"
    by (simp_all only: is_pointer.simps transitioning_reached)
  from transitioning_ignores_pointer [OF h] h show ?thesis by blast
qed



text \<open>
  C6. A click or a touch whose ray meets no mesh, or meets an edge first, is answered
  without an exception, and in every state it changes nothing but the scratch vector
  \<open>mouse\<close>: the state, the tweens, the calls still to be made, the pushed paths and the
  store are the same.
\<close>

theorem miss_or_edge_is_noop:
  assumes "pointer_at ev = Some (e, event)"
    and "case pick e event of [] \<Rightarrow> True | m # rest \<Rightarrow> isEdge m"
  shows "dispatch ev s = Inr (s\<lparr>mouse := pointer_ndc e event\<rparr>)"
  using dispatch_pointer [OF assms(1)] onCanvasClick_noop [OF assms(2)] by simp

theorem miss_or_edge_is_noop_witness:
  "pointer_at (Click env_edge click0) = Some (env_edge, click0)
   \<and> (case pick env_edge click0 of [] \<Rightarrow> True | m # rest \<Rightarrow> isEdge m)
   \<and> dispatch (Click env_edge click0) (run [Click env_front click0, Tick 1] mounted)
       = Inr ((run [Click env_front click0, Tick 1] mounted)
               \<lparr>mouse := pointer_ndc env_edge click0\<rparr>)"
proof -
  have h: "pointer_at (Click env_edge click0) = Some (env_edge, click0)"
    "case pick env_edge click0 of [] \<Rightarrow> True | m # rest \<Rightarrow> isEdge m"
    by (simp_all add: pick_scenes scene_meshes)
  from miss_or_edge_is_noop [OF h] h show ?thesis by blast
qed

text \<open>
  C5 as the code has it. The handler computes the normalized device coordinates of the
  event and looks at the nearest mesh on the ray only. When that mesh is an edge, the
  event selects nothing, whatever lies behind it; when it is a face, an Idle state
  starts unfolding and a Net or Menu state starts the menu transition of that face.
\<close>

theorem hit_test_nearest_mesh:
  assumes "pick e event = m # rest"
  shows "mouse (onCanvasClick e event s) =
           (((clientX event - rect_left (getBoundingClientRect e))
               / rect_width (getBoundingClientRect e)) * 2 - 1,
            - ((clientY event - rect_top (getBoundingClientRect e))
               / rect_height (getBoundingClientRect e)) * 2 + 1)
       \<and> pick e event = intersectObjects e (mouse (onCanvasClick e event s))
       \<and> (isEdge m \<longrightarrow> onCanvasClick e event s = s\<lparr>mouse := pointer_ndc e event\<rparr>)
       \<and> (\<not> isEdge m \<and> currentState s = Idle \<longrightarrow>
            onCanvasClick e event s = unfoldCubeNet (s\<lparr>mouse := pointer_ndc e event\<rparr>))
       \<and> (\<not> isEdge m \<and> (currentState s = Net \<or> currentState s = Menu)
            \<and> find (\<lambda>f. mesh f = m) (faces s) = Some face \<longrightarrow>
            onCanvasClick e event s =
              transitionToMenuAndNavigate face (s\<lparr>mouse := pointer_ndc e event\<rparr>))"
proof -
  have "mouse (onCanvasClick e event s) = pointer_ndc e event"
    using assms by (simp add: onCanvasClick_pick Let_def split: list.split option.split)
  then show ?thesis
    using assms
    by (auto simp add: onCanvasClick_pick pick_def pointer_ndc_def Let_def)
qed

theorem hit_test_nearest_mesh_witness:
  "pick env_edge_front click0 = edgeGroup mounted ! 0 # [mesh (faces mounted ! 0)]
   \<and> isEdge (edgeGroup mounted ! 0)
   \<and> onCanvasClick env_edge_front click0 mounted = mounted\<lparr>mouse := (0, 0)\<rparr>"
proof -
  have h: "pick env_edge_front click0 = edgeGroup mounted ! 0 # [mesh (faces mounted ! 0)]"
    by (simp add: pick_scenes)
  have ndc: "pointer_ndc env_edge_front click0 = (0, 0)"
    by (simp add: pointer_ndc_def env_edge_front_def rect0_def click0_def)
  from hit_test_nearest_mesh [OF h, of mounted]
  have "isEdge (edgeGroup mounted ! 0) \<longrightarrow>
      onCanvasClick env_edge_front click0 mounted
        = mounted\<lparr>mouse := pointer_ndc env_edge_front click0\<rparr>"
    by blast
  with h show ?thesis by (simp add: scene_meshes ndc)
qed

text \<open>
  C5 as the specification states it fails: in the Net state reached by unfolding the
  cube, a click whose ray meets an edge and then the front face does not select the
  front face. The state stays Net and no call is scheduled, while the menu transition
  of the front face would set the state to Transitioning.
\<close>

theorem nearer_edge_blocks_face_counterexample:
  "pick env_edge_front click0 = [edgeGroup mounted ! 0, mesh (faces mounted ! 0)]
   \<and> isEdge (edgeGroup mounted ! 0) \<and> \<not> isEdge (mesh (faces mounted ! 0))
   \<and> find (\<lambda>f. mesh f = mesh (faces mounted ! 0))
        (faces (run [Click env_front click0, Tick 1] mounted)) = Some (faces mounted ! 0)
   \<and> currentState (run [Click env_front click0, Tick 1] mounted) = Net
   \<and> currentState (run [Click env_front click0, Tick 1, Click env_edge_front click0] mounted)
       = Net
   \<and> callbacks (run [Click env_front click0, Tick 1, Click env_edge_front click0] mounted)
       = []
   \<and> run [Click env_front click0, Tick 1, Click env_edge_front click0] mounted
       \<noteq> transitionToMenuAndNavigate (faces mounted ! 0)
           ((run [Click env_front click0, Tick 1] mounted)
              \<lparr>mouse := pointer_ndc env_edge_front click0\<rparr>)"
proof -
  let ?s = "run [Click env_front click0, Tick 1] mounted"
  have n: "case pick env_edge_front click0 of [] \<Rightarrow> True | m # rest \<Rightarrow> isEdge m"
    by (simp add: pick_scenes scene_meshes)
  have "run [Click env_front click0, Tick 1, Click env_edge_front click0] mounted
      = onCanvasClick env_edge_front click0 ?s"
    by (simp add: step_cases)
  also have "\<dots> = ?s\<lparr>mouse := pointer_ndc env_edge_front click0\<rparr>"
    by (rule onCanvasClick_noop [OF n])
  finally have eq: "run [Click env_front click0, Tick 1, Click env_edge_front click0] mounted
      = ?s\<lparr>mouse := pointer_ndc env_edge_front click0\<rparr>" .
  have st: "currentState (?s\<lparr>mouse := pointer_ndc env_edge_front click0\<rparr>) = Net"
    "callbacks (?s\<lparr>mouse := pointer_ndc env_edge_front click0\<rparr>) = []"
    using net_reached by simp_all
  have "currentState (transitionToMenuAndNavigate (faces mounted ! 0)
           (?s\<lparr>mouse := pointer_ndc env_edge_front click0\<rparr>)) = Transitioning"
    using st(1) by (simp add: transitionToMenuAndNavigate_eq)
  with st(1) have "?s\<lparr>mouse := pointer_ndc env_edge_front click0\<rparr>
      \<noteq> transitionToMenuAndNavigate (faces mounted ! 0)
           (?s\<lparr>mouse := pointer_ndc env_edge_front click0\<rparr>)"
    by (metis CubeState.distinct(7))
  moreover have "find (\<lambda>f. mesh f = mesh (faces mounted ! 0)) (faces ?s) = Some (faces mounted ! 0)"
    using mounted_face_facts(1) [OF scene_meshes(4)] by simp
  ultimately show ?thesis
    unfolding eq using st net_reached(1) by (simp add: pick_scenes scene_meshes)
qed

text \<open>
  C10. The touch handler answers a touch event with at least one touch exactly as the
  click handler answers a click at the coordinates of the first touch: from the same
  state both give the same result, and so does every run that continues from there.
\<close>

theorem touch_is_click:
  "dispatch (TouchStart e \<lparr>touches = touch # others\<rparr>) s
     = dispatch (Click e \<lparr>clientX = touch_clientX touch, clientY = touch_clientY touch\<rparr>) s
   \<and> run (TouchStart e \<lparr>touches = touch # others\<rparr> # evs) s
     = run (Click e \<lparr>clientX = touch_clientX touch, clientY = touch_clientY touch\<rparr> # evs) s"
  by (simp add: onCanvasTouch_def step_def)

text \<open>
  C9. The switch of the navigation callback gives, for every name, a path of the routing
  table: the path of the navigation table for the six names of the faces, and \<open>/\<close> for
  any other name. Every path pushed in any run of the mounted component is one of the
  seven paths of the routing table.
\<close>

theorem pushed_paths_are_routes:
  "routePath nm \<in> set (map path routes)
   \<and> routePath nm = (case map_of route_table nm of Some p \<Rightarrow> p | None \<Rightarrow> ''/'')
   \<and> map path routes
       = [''/'', ''/web'', ''/3d'', ''/fullstack'', ''/about'', ''/projects'', ''/contact'']
   \<and> set (pushes (run evs mounted)) \<subseteq> set (map path routes)"
proof -
  have "set (pushes mounted) \<subseteq> set (map path routes)"
    by (simp add: mounted_frame)
  from run_pushes_routes [OF this] routePath_routes show ?thesis
    by (simp add: routePath_def route_table_def routes_def)
qed

text \<open>
  C8. The state is Idle when the module has been set up and when the component has been
  mounted. unfoldCubeNet sets the state to Transitioning and schedules, one second
  later, the call that sets it to Net; transitionToMenuAndNavigate, when it sets the
  state to Transitioning, schedules, 1.7 seconds later, the call that sets it to Menu.
  In a Transitioning state of any run whose clock runs forwards, exactly one completing
  call is waiting, and an update of the clock by 1.7 seconds or more leaves the state
  Net or Menu.
\<close>

theorem transitioning_is_not_a_resting_point:
  assumes "list_all valid_event evs" and "currentState (run evs mounted) = Transitioning"
    and "1.7 \<le> dt" and "currentState s' = Net \<or> currentState s' = Menu"
  shows "currentState script_setup = Idle \<and> currentState mounted = Idle
       \<and> currentState (unfoldCubeNet s) = Transitioning
       \<and> callbacks (unfoldCubeNet s) = callbacks s @ [(now s + 1, SetNet)]
       \<and> currentState (run_action SetNet s) = Net
       \<and> currentState (transitionToMenuAndNavigate face s') = Transitioning
       \<and> (now s' + 1.7, MenuNavigate face) \<in> set (callbacks (transitionToMenuAndNavigate face s'))
       \<and> currentState (run_action (MenuNavigate face) s) = Menu
       \<and> length (in_flight (run evs mounted)) = 1
       \<and> (currentState (tick dt (run evs mounted)) = Net
           \<or> currentState (tick dt (run evs mounted)) = Menu)"
  using transitioning_ends [OF assms(1,2,3)] assms(2,4)
  by (simp add: script_setup_def mounted_frame unfoldCubeNet_eq transitionToMenuAndNavigate_eq
      in_flight_reachable router_push_def)

theorem transitioning_is_not_a_resting_point_witness:
  "list_all valid_event [Click env_front click0]
   \<and> currentState (run [Click env_front click0] mounted) = Transitioning
   \<and> (1.7::real) \<le> 2
   \<and> (currentState (run [Click env_front click0, Tick 1] mounted) = Net
       \<or> currentState (run [Click env_front click0, Tick 1] mounted) = Menu)
   \<and> currentState (transitionToMenuAndNavigate (faces mounted ! 5)
         (run [Click env_front click0, Tick 1] mounted)) = Transitioning
   \<and> length (in_flight (run [Click env_front click0] mounted)) = 1
   \<and> (currentState (tick 2 (run [Click env_front click0] mounted)) = Net
       \<or> currentState (tick 2 (run [Click env_front click0] mounted)) = Menu)"
proof -
  have h: "list_all valid_event [Click env_front click0]"
    "currentState (run [Click env_front click0] mounted) = Transitioning"
    "(1.7::real) \<le> 2"
    "currentState (run [Click env_front click0, Tick 1] mounted) = Net
       \<or> currentState (run [Click env_front click0, Tick 1] mounted) = Menu"
    by (simp_all only: transitioning_reached net_reached simp_thms) simp_all
  from transitioning_is_not_a_resting_point [OF h] h show ?thesis by blast
qed

text \<open>
  C7. In every state that any run of the mounted component reaches (clicks, touches,
  updates of the animation clock and frames of the render loop, in any order), the
  layout table holds, for every face, the cube, net and menu positions and rotations
  that init stored: the constants listed here.
\<close>

theorem layout_table_constant:
  "layout_table (run evs mounted) = layout_table mounted
   \<and> layout_table mounted =
     [(''front'', [Vec 0 0 0.5, Vec 0 0 0, Vec (-0.5) 0 0, Vec 0 0 0, Vec 0 1.5 0, Vec 0 0 0]),
      (''right'', [Vec 0.5 0 0, Vec 0 (pi / 2) 0, Vec 0.5 0 0, Vec 0 0 0, Vec 0 (-0.5) 0, Vec 0 0 0]),
      (''left'', [Vec (-0.5) 0 0, Vec 0 (- pi / 2) 0, Vec (-1.5) 0 0, Vec 0 0 0, Vec 0 0.5 0, Vec 0 0 0]),
      (''top'', [Vec 0 0.5 0, Vec (- pi / 2) 0 0, Vec (-0.5) 1 0, Vec 0 0 0, Vec 0 2.5 0, Vec 0 0 0]),
      (''bottom'', [Vec 0 (-0.5) 0, Vec (pi / 2) 0 0, Vec (-0.5) (-1) 0, Vec 0 0 0, Vec 0 (-1.5) 0, Vec 0 0 0]),
      (''back'', [Vec 0 0 (-0.5), Vec 0 pi 0, Vec 1.5 0 0, Vec 0 0 0, Vec 0 (-2.5) 0, Vec 0 0 0])]"
  using layout_table_run layout_table_mounted by simp

end
